theory Spec2Isabelle
  imports Main "HOL-Library.Char_ord" "HOL-Library.List_Lexorder"
begin

section \<open>Values, errors and the platform\<close>

text \<open>
  The build pipeline of go-vss (\<^verbatim>\<open>Builder\<close> and its helpers) is embedded function by
  function. Go's \<^verbatim>\<open>string\<close> and \<^verbatim>\<open>[]byte\<close> are byte sequences: \<^typ>\<open>string\<close>. A value of
  type \<^verbatim>\<open>interface{}\<close> stored in a render context is a \<open>val\<close>. The calls of
  \<^verbatim>\<open>log.Printf\<close> only write notices to the log and are left out.
\<close>

datatype val = VString string | VInt int | VBool bool | VList "val list"

text \<open>
  A Go \<^verbatim>\<open>error\<close>. The two errors that the builder creates itself have constructors of
  their own; errors of the operating system and of the libraries are opaque. A run-time
  panic (the nil dereference in \<^verbatim>\<open>existDir\<close>) unwinds through every caller the way an
  error return does, so it travels in the same channel as \<open>NilPanic\<close>.
\<close>

datatype error =
    TemplateNotFound
  | DistExists
  | OSError string
  | LibError string
  | NilPanic

datatype GOOS = Unix | Windows

definition Separator :: "GOOS \<Rightarrow> char" where
  "Separator goos = (case goos of Unix \<Rightarrow> CHR ''/'' | Windows \<Rightarrow> CHR 0x5C)"

definition IsPathSeparator :: "GOOS \<Rightarrow> char \<Rightarrow> bool" where
  "IsPathSeparator goos c =
     (case goos of Unix \<Rightarrow> c = CHR ''/'' | Windows \<Rightarrow> c = CHR 0x5C \<or> c = CHR ''/'')"

section \<open>Functions of the packages strings and path/filepath\<close>

definition HasSuffix :: "string \<Rightarrow> string \<Rightarrow> bool" where
  "HasSuffix s suffix =
     (length suffix \<le> length s \<and> drop (length s - length suffix) s = suffix)"

definition TrimSuffix :: "string \<Rightarrow> string \<Rightarrow> string" where
  "TrimSuffix s suffix =
     (if HasSuffix s suffix then take (length s - length suffix) s else s)"

text \<open>
  \<^verbatim>\<open>strings.ToLower\<close> on the bytes of ASCII: the letters \<open>A\<close> to \<open>Z\<close> move to \<open>a\<close> to
  \<open>z\<close>, every other byte stays. (On a string with bytes outside ASCII Go maps whole runes;
  no rune but \<open>M\<close> and \<open>D\<close> has the lower case \<open>m\<close> or \<open>d\<close>, so the comparison with
  \<open>.md\<close>, the only one the builder makes, is the same.)
\<close>

definition lower_byte :: "char \<Rightarrow> char" where
  "lower_byte c =
     (let n = (of_char c :: nat) in if 65 \<le> n \<and> n \<le> 90 then char_of (n + 32) else c)"

definition ToLower :: "string \<Rightarrow> string" where
  "ToLower s = map lower_byte s"

text \<open>
  \<^verbatim>\<open>filepath.Ext\<close>: the loop runs from the last byte towards the first, stops at a path
  separator, and returns the suffix that starts at the first dot it meets. The first
  argument of \<open>ext_loop\<close> is the part of the path not yet seen, reversed; the second the
  bytes already passed.
\<close>

fun ext_loop :: "GOOS \<Rightarrow> string \<Rightarrow> string \<Rightarrow> string" where
  "ext_loop goos [] seen = []"
| "ext_loop goos (c # unseen) seen =
     (if IsPathSeparator goos c then []
      else if c = CHR ''.'' then c # seen
      else ext_loop goos unseen (c # seen))"

definition Ext :: "GOOS \<Rightarrow> string \<Rightarrow> string" where
  "Ext goos path = ext_loop goos (rev path) []"

definition ToSlash :: "GOOS \<Rightarrow> string \<Rightarrow> string" where
  "ToSlash goos path =
     (if Separator goos = CHR ''/'' then path
      else map (\<lambda>c. if c = Separator goos then CHR ''/'' else c) path)"

section \<open>replaceExt and convertMarkdownPathToHtmlPath\<close>

text \<open>
  The slice \<^verbatim>\<open>filePath[:len(filePath)-len(ext)]\<close> is in range because \<^verbatim>\<open>ext\<close> is a suffix
  of \<^verbatim>\<open>filePath\<close> (lemma \<open>Ext_suffix\<close> below), so \<open>take\<close> is the slice.
\<close>

definition replaceExt :: "GOOS \<Rightarrow> string \<Rightarrow> string \<Rightarrow> string \<Rightarrow> string" where
  "replaceExt goos filePath from to =
     (let ext = Ext goos filePath in
      if length from > 0 \<and> ToLower ext \<noteq> from then filePath
      else take (length filePath - length ext) filePath @ to)"

definition convertMarkdownPathToHtmlPath :: "GOOS \<Rightarrow> string \<Rightarrow> string" where
  "convertMarkdownPathToHtmlPath goos markdownPath =
     replaceExt goos markdownPath ''.md'' ''.html''"

section \<open>The data model\<close>

text \<open>
  Modelled from the spec: the declaration of \<^verbatim>\<open>Config\<close>, which is in a file of the package
  other than the builder's. The spec gives it "paths for static assets root, layouts
  root, distribution (output) root; list of filenames to ignore during discovery; nested
  Markdown-engine options (syntax-highlighting style, line numbers, raw-HTML
  passthrough)". The field names and the nesting are those the builder uses
  (\<^verbatim>\<open>b.config.Build.Goldmark.HighlightConfig.Style\<close> and so on); a Go pointer that may be
  nil is an \<open>option\<close>.
\<close>

record HighlightConfig =
  Style :: "string option"
  WithNumbers :: "bool option"

record RendererOptions =
  WithUnsafe :: "bool option"

record GoldmarkConfig =
  HighlightConfig :: "HighlightConfig option"
  RendererOptions :: "RendererOptions option"

record BuildConfig =
  IgnoreFiles :: "string list"
  Goldmark :: GoldmarkConfig

record Config =
  BaseUrl :: string
  Dist :: string
  Static :: string
  Layouts :: string
  Build :: BuildConfig

text \<open>
  Modelled from the spec: the declarations of \<^verbatim>\<open>YamlFrontMatter\<close> and \<^verbatim>\<open>FileData\<close>, which
  are in a file of the package other than the builder's. The spec gives the front matter
  the "fields: slug override, social-share image, optional emoji marker, plus an open
  extensible map of arbitrary key/value pairs"; the first three have the names the
  builder uses, the last is the list \<open>Other\<close>. A \<^verbatim>\<open>FileData\<close> has the three fields the
  builder assigns.
\<close>

record YamlFrontMatter =
  PostSlug :: string
  OgImage :: string
  Emoji :: string
  Other :: "(string \<times> val) list"

record FileData =
  Path :: string
  Content :: string
  FrontMatter :: YamlFrontMatter

text \<open>The zero values that \<^verbatim>\<open>var yfm YamlFrontMatter\<close> and \<^verbatim>\<open>var filedata FileData\<close> give.\<close>

definition zeroYamlFrontMatter :: YamlFrontMatter where
  "zeroYamlFrontMatter = \<lparr>PostSlug = [], OgImage = [], Emoji = [], Other = []\<rparr>"

definition zeroFileData :: FileData where
  "zeroFileData = \<lparr>Path = [], Content = [], FrontMatter = zeroYamlFrontMatter\<rparr>"

text \<open>The Markdown engine that \<^verbatim>\<open>initGoldmark\<close> configures: its extensions and options.\<close>

datatype highlighting_Option =
    highlighting_WithStyle string
  | highlighting_WithLineNumbers bool

datatype goldmark_Extender =
    extension_GFM
  | highlighting_NewHighlighting "highlighting_Option list"

datatype renderer_Option = html_WithUnsafe

record Markdown =
  extensions :: "goldmark_Extender list"
  rendererOptions :: "renderer_Option list"

text \<open>
  \<^verbatim>\<open>NewBuilder\<close> sets the configuration only: the template map and the base context are
  nil maps, which read as empty, and the Markdown engine \<^verbatim>\<open>gm\<close> is a nil interface,
  \<open>None\<close>, until \<^verbatim>\<open>Run\<close> assigns it. A call of \<^verbatim>\<open>b.gm.Convert\<close> on the nil engine panics.
\<close>

record 't Builder =
  config :: Config
  templateMap :: "string \<rightharpoonup> 't"
  gm :: "Markdown option"
  baseRenderContext :: "string \<rightharpoonup> val"

definition NewBuilder :: "Config \<Rightarrow> 't Builder" where
  "NewBuilder c =
     \<lparr>config = c, templateMap = Map.empty,
      gm = None, baseRenderContext = Map.empty\<rparr>"

definition GetDistPath :: "'t Builder \<Rightarrow> string" where
  "GetDistPath b = Dist (config b)"

definition SetBaseUrl :: "'t Builder \<Rightarrow> string \<Rightarrow> 't Builder" where
  "SetBaseUrl b baseURL = b\<lparr>config := (config b)\<lparr>BaseUrl := baseURL\<rparr>\<rparr>"

section \<open>The operating system and the libraries\<close>

text \<open>
  What the builder calls but does not define is a parameter of the model: the record
  \<open>world\<close> holds one function for each call of the packages \<^verbatim>\<open>os\<close>, \<^verbatim>\<open>io\<close>,
  \<^verbatim>\<open>path/filepath\<close>, \<^verbatim>\<open>frontmatter\<close>, \<^verbatim>\<open>goldmark\<close> and \<^verbatim>\<open>mustache\<close>, and for the methods
  \<^verbatim>\<open>AsMap\<close> and \<^verbatim>\<open>SaveTwemojiPng\<close>. The state of the file system has the type \<open>'fs\<close>, a
  parsed template the type \<open>'t\<close>; a call that writes returns the new state. An open file
  is named by its path, and closing it has no effect. Every theorem below holds for
  every world.

  \<^item> \<open>os_Stat\<close> answers \<open>NotExist\<close> when \<^verbatim>\<open>os.IsNotExist(err)\<close> holds, \<open>StatFailed\<close> for
    any other error (then the \<^verbatim>\<open>FileInfo\<close> is nil), and \<open>FileInfo d\<close> with \<open>d\<close> the value
    of \<^verbatim>\<open>IsDir()\<close>.
  \<^item> \<open>os_ReadDir\<close> lists a directory: the name and \<^verbatim>\<open>IsDir()\<close> of each entry.
  \<^item> \<open>filepath_Walk\<close> is the sequence of calls \<^verbatim>\<open>filepath.Walk\<close> makes to a callback that
    keeps answering nil: the path, then either the error it passes or the name and
    \<^verbatim>\<open>IsDir()\<close> of the \<^verbatim>\<open>FileInfo\<close>. The callback of the builder never asks to skip a
    directory, and the walk ends at its first error.
  \<^item> \<open>frontmatter_Parse\<close> gives the metadata it decoded into the zero front matter, and
    the rest of the bytes.
\<close>

datatype stat_result = NotExist | StatFailed error | FileInfo bool

datatype visit = Visit (v_path: string) (v_name: string) (v_isDir: bool)
  | VisitErr (v_path: string) error

record ('fs, 't) world =
  runtime_GOOS :: GOOS
  filepath_Join :: "string list \<Rightarrow> string"
  filepath_Dir :: "string \<Rightarrow> string"
  filepath_Base :: "string \<Rightarrow> string"
  filepath_Walk :: "'fs \<Rightarrow> string \<Rightarrow> visit list"
  os_Stat :: "'fs \<Rightarrow> string \<Rightarrow> stat_result"
  os_Mkdir :: "'fs \<Rightarrow> string \<Rightarrow> error option \<times> 'fs"
  os_MkdirAll :: "'fs \<Rightarrow> string \<Rightarrow> error option \<times> 'fs"
  os_RemoveAll :: "'fs \<Rightarrow> string \<Rightarrow> error option \<times> 'fs"
  os_ReadDir :: "'fs \<Rightarrow> string \<Rightarrow> error + (string \<times> bool) list"
  os_Open :: "'fs \<Rightarrow> string \<Rightarrow> error option"
  os_Create :: "'fs \<Rightarrow> string \<Rightarrow> error option \<times> 'fs"
  os_ReadFile :: "'fs \<Rightarrow> string \<Rightarrow> error + string"
  io_Copy :: "'fs \<Rightarrow> string \<Rightarrow> string \<Rightarrow> error option \<times> 'fs"
  frontmatter_Parse :: "string \<Rightarrow> error + (YamlFrontMatter \<times> string)"
  goldmark_Convert :: "Markdown \<Rightarrow> string \<Rightarrow> error + string"
  mustache_ParseFile :: "'fs \<Rightarrow> string \<Rightarrow> error + 't"
  template_FRender :: "'t \<Rightarrow> 'fs \<Rightarrow> string \<Rightarrow> (string \<rightharpoonup> val) \<Rightarrow> error option \<times> 'fs"
  SaveTwemojiPng :: "YamlFrontMatter \<Rightarrow> 'fs \<Rightarrow> string \<Rightarrow> error option \<times> 'fs"
  YamlFrontMatter_AsMap :: "YamlFrontMatter \<Rightarrow> (string \<rightharpoonup> val)"
  Config_AsMap :: "Config \<Rightarrow> (string \<rightharpoonup> val)"

section \<open>Directories and files\<close>

text \<open>
  \<^verbatim>\<open>existDir\<close> calls \<^verbatim>\<open>info.IsDir()\<close> whenever the error of \<^verbatim>\<open>os.Stat\<close> is not "does not
  exist"; after any other error \<^verbatim>\<open>info\<close> is nil and the call panics.
\<close>

definition existDir :: "('fs, 't) world \<Rightarrow> 'fs \<Rightarrow> string \<Rightarrow> error + bool" where
  "existDir w fs dir =
     (case os_Stat w fs dir of
        NotExist \<Rightarrow> Inr False
      | StatFailed e \<Rightarrow> Inl NilPanic
      | FileInfo d \<Rightarrow> Inr d)"

definition createDistDir ::
  "('fs, 't) world \<Rightarrow> 'fs \<Rightarrow> string \<Rightarrow> bool \<Rightarrow> error option \<times> 'fs" where
  "createDistDir w fs dist overwrite =
     (case existDir w fs dist of
        Inl p \<Rightarrow> (Some p, fs)
      | Inr exists \<Rightarrow>
          if exists \<and> \<not> overwrite then (Some DistExists, fs)
          else
            (case (if exists then os_RemoveAll w fs dist else (None, fs)) of
               (Some e, fs1) \<Rightarrow> (Some e, fs1)
             | (None, fs1) \<Rightarrow>
                 (case os_Mkdir w fs1 dist of
                    (Some e, fs2) \<Rightarrow> (Some e, fs2)
                  | (None, fs2) \<Rightarrow> (None, fs2))))"

text \<open>\<^verbatim>\<open>createDistFile\<close> returns the open file, here its path, or the error.\<close>

definition createDistFile ::
  "('fs, 't) world \<Rightarrow> 'fs \<Rightarrow> string \<Rightarrow> (error + string) \<times> 'fs" where
  "createDistFile w fs dist =
     (let dir = filepath_Dir w dist in
      case existDir w fs dir of
        Inl p \<Rightarrow> (Inl p, fs)
      | Inr exists \<Rightarrow>
          (case (if \<not> exists then os_MkdirAll w fs dir else (None, fs)) of
             (Some e, fs1) \<Rightarrow> (Inl e, fs1)
           | (None, fs1) \<Rightarrow>
               (case os_Create w fs1 dist of
                  (Some e, fs2) \<Rightarrow> (Inl e, fs2)
                | (None, fs2) \<Rightarrow> (Inr dist, fs2))))"

definition copyFile ::
  "('fs, 't) world \<Rightarrow> 'fs \<Rightarrow> string \<Rightarrow> string \<Rightarrow> error option \<times> 'fs" where
  "copyFile w fs src dst =
     (case os_Open w fs src of
        Some e \<Rightarrow> (Some e, fs)
      | None \<Rightarrow>
          (case os_Create w fs dst of
             (Some e, fs1) \<Rightarrow> (Some e, fs1)
           | (None, fs1) \<Rightarrow>
               (case io_Copy w fs1 dst src of
                  (Some e, fs2) \<Rightarrow> (Some e, fs2)
                | (None, fs2) \<Rightarrow> (None, fs2))))"

text \<open>
  \<^verbatim>\<open>copyStatic\<close> calls itself on every subdirectory it reads, one after the other, on the
  file system as the copies before have left it. When the destination lies inside the
  source the recursion does not end, so the model counts the depth of the calls: the
  first argument bounds it, and \<open>None\<close> says that the bound was reached. \<open>copyStatic_loop\<close>
  is the loop over the entries of one directory.
\<close>

fun copyStatic ::
    "nat \<Rightarrow> ('fs, 't) world \<Rightarrow> 'fs \<Rightarrow> string \<Rightarrow> string \<Rightarrow> (error option \<times> 'fs) option"
  and copyStatic_loop ::
    "nat \<Rightarrow> ('fs, 't) world \<Rightarrow> 'fs \<Rightarrow> string \<Rightarrow> string \<Rightarrow> (string \<times> bool) list
       \<Rightarrow> (error option \<times> 'fs) option" where
  "copyStatic 0 w fs src dist = None"
| "copyStatic (Suc n) w fs src dist =
     (case existDir w fs src of
        Inl p \<Rightarrow> Some (Some p, fs)
      | Inr False \<Rightarrow> Some (None, fs)
      | Inr True \<Rightarrow>
          (case os_MkdirAll w fs dist of
             (Some e, fs1) \<Rightarrow> Some (Some e, fs1)
           | (None, fs1) \<Rightarrow>
               (case os_ReadDir w fs1 src of
                  Inl e \<Rightarrow> Some (Some e, fs1)
                | Inr files \<Rightarrow> copyStatic_loop n w fs1 src dist files)))"
| "copyStatic_loop n w fs src dist [] = Some (None, fs)"
| "copyStatic_loop n w fs src dist (file # files) =
     (let srcFile = filepath_Join w [src, fst file];
          distFile = filepath_Join w [dist, fst file]
      in case (if snd file then copyStatic n w fs srcFile distFile
               else Some (copyFile w fs srcFile distFile)) of
           None \<Rightarrow> None
         | Some (Some e, fs1) \<Rightarrow> Some (Some e, fs1)
         | Some (None, fs1) \<Rightarrow> copyStatic_loop n w fs1 src dist files)"

section \<open>File discovery\<close>

text \<open>
  The callback of \<^verbatim>\<open>getFilePathsByExt\<close>, applied to the visits of the walk in their order;
  the last argument is the slice \<^verbatim>\<open>filePaths\<close>.
\<close>

fun walkFn :: "string \<Rightarrow> visit list \<Rightarrow> string list \<Rightarrow> error + string list" where
  "walkFn ext [] filePaths = Inr filePaths"
| "walkFn ext (VisitErr path err # visits) filePaths = Inl err"
| "walkFn ext (Visit path name isDir # visits) filePaths =
     walkFn ext visits
       (if \<not> isDir \<and> HasSuffix name ext then filePaths @ [path] else filePaths)"

definition getFilePathsByExt ::
  "('fs, 't) world \<Rightarrow> 'fs \<Rightarrow> string \<Rightarrow> string \<Rightarrow> error + string list" where
  "getFilePathsByExt w fs dirPath ext = walkFn ext (filepath_Walk w fs dirPath) []"

definition purgeIgnoreFiles :: "('fs, 't) world \<Rightarrow> 't Builder \<Rightarrow> string list \<Rightarrow> string list" where
  "purgeIgnoreFiles w b files =
     filter (\<lambda>path. filepath_Base w path \<notin> set (IgnoreFiles (Build (config b)))) files"

section \<open>Templates\<close>

text \<open>
  \<^verbatim>\<open>initTemplateMap\<close> parses the template files in their order and stops at the first
  that fails; \<open>initTemplateMap_loop\<close> is its loop, with the map \<^verbatim>\<open>m\<close> as last argument.
\<close>

fun initTemplateMap_loop ::
  "('fs, 't) world \<Rightarrow> 'fs \<Rightarrow> string list \<Rightarrow> (string \<rightharpoonup> 't) \<Rightarrow> error + (string \<rightharpoonup> 't)" where
  "initTemplateMap_loop w fs [] m = Inr m"
| "initTemplateMap_loop w fs (templateFile # templateFiles) m =
     (case mustache_ParseFile w fs templateFile of
        Inl e \<Rightarrow> Inl e
      | Inr t \<Rightarrow> initTemplateMap_loop w fs templateFiles (m(templateFile \<mapsto> t)))"

definition initTemplateMap ::
  "('fs, 't) world \<Rightarrow> 't Builder \<Rightarrow> 'fs \<Rightarrow> string list \<Rightarrow> error + 't Builder" where
  "initTemplateMap w b fs templateFiles =
     (case initTemplateMap_loop w fs templateFiles Map.empty of
        Inl e \<Rightarrow> Inl e
      | Inr m \<Rightarrow> Inr (b\<lparr>templateMap := m\<rparr>))"

definition lookUpTemplate :: "('fs, 't) world \<Rightarrow> 't Builder \<Rightarrow> string \<Rightarrow> error + 't" where
  "lookUpTemplate w b path =
     (let dir = filepath_Dir w path;
          layoutsDir = Layouts (config b)
      in case templateMap b (filepath_Join w [layoutsDir, path]) of
           Some t \<Rightarrow> Inr t
         | None \<Rightarrow>
             (case templateMap b (filepath_Join w [layoutsDir, dir, ''default.html'']) of
                Some t \<Rightarrow> Inr t
              | None \<Rightarrow>
                  (case templateMap b (filepath_Join w [layoutsDir, ''default.html'']) of
                     Some t \<Rightarrow> Inr t
                   | None \<Rightarrow> Inl TemplateNotFound)))"

section \<open>The Markdown engine\<close>

definition initGoldmark :: "'t Builder \<Rightarrow> Markdown" where
  "initGoldmark b =
     (let highlightoptions =
            (case HighlightConfig (Goldmark (Build (config b))) of
               None \<Rightarrow> []
             | Some hc \<Rightarrow>
                 (case Style hc of None \<Rightarrow> [] | Some st \<Rightarrow> [highlighting_WithStyle st]) @
                 (case WithNumbers hc of
                    None \<Rightarrow> []
                  | Some wn \<Rightarrow> [highlighting_WithLineNumbers wn]));
          exts =
            [extension_GFM] @
            (if length highlightoptions > 0 then [highlighting_NewHighlighting highlightoptions]
             else []);
          ropts =
            (case RendererOptions (Goldmark (Build (config b))) of
               None \<Rightarrow> []
             | Some ro \<Rightarrow>
                 (case WithUnsafe ro of
                    None \<Rightarrow> []
                  | Some u \<Rightarrow> if u then [html_WithUnsafe] else []))
      in \<lparr>extensions = exts, rendererOptions = ropts\<rparr>)"

section \<open>Extracting a document and building its render context\<close>

text \<open>
  \<^verbatim>\<open>getFileData\<close> returns a \<^verbatim>\<open>FileData\<close> beside every error; its one caller drops it, and
  so does the model.
\<close>

definition getFileData ::
  "('fs, 't) world \<Rightarrow> 't Builder \<Rightarrow> 'fs \<Rightarrow> string \<Rightarrow> error + FileData" where
  "getFileData w b fs markdownPath =
     (let filedata = zeroFileData\<lparr>Path := markdownPath\<rparr> in
      case os_ReadFile w fs markdownPath of
        Inl e \<Rightarrow> Inl e
      | Inr content \<Rightarrow>
          (case frontmatter_Parse w content of
             Inl e \<Rightarrow> Inl e
           | Inr (yfm, markdown) \<Rightarrow>
               (case gm b of
                  None \<Rightarrow> Inl NilPanic
                | Some engine \<Rightarrow>
                    (case goldmark_Convert w engine markdown of
                       Inl e \<Rightarrow> Inl e
                     | Inr buf \<Rightarrow>
                         (let filedata1 = filedata\<lparr>Content := buf\<rparr> in
                          if content = markdown then Inr filedata1
                          else Inr (filedata1\<lparr>FrontMatter := yfm\<rparr>))))))"

text \<open>
  The two loops of \<^verbatim>\<open>getRenderContext\<close> store every entry of one map into another. The
  keys of a map are distinct, so the order of the stores does not show in the result,
  which is the second map laid over the first: \<open>++\<close>.
\<close>

definition getRenderContext ::
  "('fs, 't) world \<Rightarrow> 't Builder \<Rightarrow> FileData \<Rightarrow> error + (string \<rightharpoonup> val)" where
  "getRenderContext w b filedata =
     (let renderContext0 = Map.empty(''contents'' \<mapsto> VString (Content filedata));
          renderContext1 = renderContext0 ++ baseRenderContext b;
          renderContext2 = renderContext1 ++ YamlFrontMatter_AsMap w (FrontMatter filedata)
      in Inr renderContext2)"

section \<open>Rendering one page\<close>

text \<open>The step of \<^verbatim>\<open>renderContent\<close> that fills an empty \<^verbatim>\<open>PostSlug\<close>.\<close>

definition postSlug :: "GOOS \<Rightarrow> string \<Rightarrow> FileData \<Rightarrow> FileData" where
  "postSlug os htmlPath filedata =
     (if PostSlug (FrontMatter filedata) = []
      then filedata\<lparr>FrontMatter :=
             (FrontMatter filedata)\<lparr>PostSlug := ToSlash os (TrimSuffix htmlPath ''.html'')\<rparr>\<rparr>
      else filedata)"

text \<open>The step of \<^verbatim>\<open>renderContent\<close> that writes the share image of a page with an emoji.\<close>

definition ogImage ::
  "('fs, 't) world \<Rightarrow> 't Builder \<Rightarrow> 'fs \<Rightarrow> string \<Rightarrow> FileData \<Rightarrow> (error + FileData) \<times> 'fs" where
  "ogImage w b fs markdownPath filedata =
     (if OgImage (FrontMatter filedata) = [] \<and> Emoji (FrontMatter filedata) \<noteq> [] then
        (let imagePath = replaceExt (runtime_GOOS w) markdownPath ''.md'' ''.png'';
             imageDistPath = filepath_Join w [Dist (config b), imagePath]
         in case os_Create w fs imageDistPath of
              (Some e, fs1) \<Rightarrow> (Inl e, fs1)
            | (None, fs1) \<Rightarrow>
                (case SaveTwemojiPng w (FrontMatter filedata) fs1 imageDistPath of
                   (Some e, fs2) \<Rightarrow> (Inl e, fs2)
                 | (None, fs2) \<Rightarrow>
                     (Inr (filedata\<lparr>FrontMatter :=
                        (FrontMatter filedata)\<lparr>OgImage := ToSlash (runtime_GOOS w) imagePath\<rparr>\<rparr>),
                      fs2)))
      else (Inr filedata, fs))"

definition renderContent ::
  "('fs, 't) world \<Rightarrow> 't Builder \<Rightarrow> 'fs \<Rightarrow> string \<Rightarrow> error option \<times> 'fs" where
  "renderContent w b fs markdownPath =
     (let htmlPath = convertMarkdownPathToHtmlPath (runtime_GOOS w) markdownPath in
      case createDistFile w fs (filepath_Join w [Dist (config b), htmlPath]) of
        (Inl e, fs1) \<Rightarrow> (Some e, fs1)
      | (Inr distFile, fs1) \<Rightarrow>
          (case lookUpTemplate w b htmlPath of
             Inl e \<Rightarrow> (Some e, fs1)
           | Inr template \<Rightarrow>
               (case getFileData w b fs1 markdownPath of
                  Inl e \<Rightarrow> (Some e, fs1)
                | Inr filedata \<Rightarrow>
                    (case ogImage w b fs1 markdownPath
                            (postSlug (runtime_GOOS w) htmlPath filedata) of
                       (Inl e, fs2) \<Rightarrow> (Some e, fs2)
                     | (Inr filedata2, fs2) \<Rightarrow>
                         (case getRenderContext w b filedata2 of
                            Inl e \<Rightarrow> (Some e, fs2)
                          | Inr renderContext \<Rightarrow>
                              template_FRender w template fs2 distFile renderContext)))))"

section \<open>The coordinator\<close>

text \<open>
  \<^verbatim>\<open>Run\<close> up to the line before it starts the goroutines. \<open>Run_setup\<close> recreates the
  destination directory and copies the static files; \<open>Run_discover\<close> is what follows:
  discovery, the templates, the engine and the base context. Together they give the
  builder as the goroutines see it and the Markdown files to render, or the error that
  \<^verbatim>\<open>Run\<close> returns at once. The first argument of \<open>Run_setup\<close> bounds the depth of
  \<^verbatim>\<open>copyStatic\<close>.
\<close>

definition Run_discover ::
  "('fs, 't) world \<Rightarrow> 't Builder \<Rightarrow> 'fs \<Rightarrow> error + 't Builder \<times> string list" where
  "Run_discover w b fs =
     (case getFilePathsByExt w fs ''.'' ''.md'' of
        Inl e \<Rightarrow> Inl e
      | Inr found \<Rightarrow>
          (let markdownFiles = purgeIgnoreFiles w b found in
           case getFilePathsByExt w fs (Layouts (config b)) ''.html'' of
             Inl e \<Rightarrow> Inl e
           | Inr templateFiles \<Rightarrow>
               (case initTemplateMap w b fs templateFiles of
                  Inl e \<Rightarrow> Inl e
                | Inr b1 \<Rightarrow>
                    (let b2 = b1\<lparr>gm := Some (initGoldmark b1)\<rparr>;
                         b3 = b2\<lparr>baseRenderContext := Config_AsMap w (config b2)\<rparr>
                     in Inr (b3, markdownFiles)))))"

definition Run_setup ::
  "nat \<Rightarrow> ('fs, 't) world \<Rightarrow> 't Builder \<Rightarrow> 'fs
     \<Rightarrow> ((error + 't Builder \<times> string list) \<times> 'fs) option" where
  "Run_setup n w b fs =
     (case createDistDir w fs (Dist (config b)) True of
        (Some e, fs1) \<Rightarrow> Some (Inl e, fs1)
      | (None, fs1) \<Rightarrow>
          (case copyStatic n w fs1 (Static (config b)) (Dist (config b)) of
             None \<Rightarrow> None
           | Some (Some e, fs2) \<Rightarrow> Some (Inl e, fs2)
           | Some (None, fs2) \<Rightarrow> Some (Run_discover w b fs2, fs2)))"

text \<open>
  The goroutines. Each Markdown file has one; it is about to call \<^verbatim>\<open>renderContent\<close>
  (\<open>Todo\<close>), waits to send its error on the unbuffered channel (\<open>Sending\<close>), has sent it
  and not yet called \<^verbatim>\<open>wg.Done\<close> (\<open>Sent\<close>), or has called \<^verbatim>\<open>wg.Done\<close> (\<open>Finished\<close>, with
  what \<^verbatim>\<open>renderContent\<close> returned). \<^verbatim>\<open>Run\<close> itself is in its loop over the channel
  (\<open>Ranging\<close>) or has returned. The goroutine that closes the channel has done so when
  \<open>closed\<close> holds. A panic in a goroutine ends the process: \<open>crashed\<close>.
\<close>

datatype task =
    Todo string
  | Sending string error
  | Sent string error
  | Finished string "error option"

datatype main_state = Ranging | Returned "error option"

record 'fs pool =
  pfs :: 'fs
  tasks :: "task list"
  closed :: bool
  main :: main_state
  crashed :: bool

text \<open>
  One step of the process. A call of \<^verbatim>\<open>renderContent\<close> is one step: it runs on the file
  system as the calls before it have left it. A send completes together with the
  receive in the loop of \<^verbatim>\<open>Run\<close>, which returns the error at once. The channel is closed
  when every goroutine has called \<^verbatim>\<open>wg.Done\<close>, and the loop ends with nil on a closed
  channel. Goroutines keep running after \<^verbatim>\<open>Run\<close> has returned.
\<close>

inductive step :: "('fs, 't) world \<Rightarrow> 't Builder \<Rightarrow> 'fs pool \<Rightarrow> 'fs pool \<Rightarrow> bool"
  for w :: "('fs, 't) world" and b :: "'t Builder" where
  render_ok:
    "\<not> crashed s \<Longrightarrow> i < length (tasks s) \<Longrightarrow> tasks s ! i = Todo path \<Longrightarrow>
     renderContent w b (pfs s) path = (None, fs') \<Longrightarrow>
     step w b s (s\<lparr>pfs := fs', tasks := (tasks s)[i := Finished path None]\<rparr>)"
| render_err:
    "\<not> crashed s \<Longrightarrow> i < length (tasks s) \<Longrightarrow> tasks s ! i = Todo path \<Longrightarrow>
     renderContent w b (pfs s) path = (Some e, fs') \<Longrightarrow> e \<noteq> NilPanic \<Longrightarrow>
     step w b s (s\<lparr>pfs := fs', tasks := (tasks s)[i := Sending path e]\<rparr>)"
| render_panic:
    "\<not> crashed s \<Longrightarrow> i < length (tasks s) \<Longrightarrow> tasks s ! i = Todo path \<Longrightarrow>
     renderContent w b (pfs s) path = (Some NilPanic, fs') \<Longrightarrow>
     step w b s (s\<lparr>pfs := fs', crashed := True\<rparr>)"
| receive:
    "\<not> crashed s \<Longrightarrow> main s = Ranging \<Longrightarrow> i < length (tasks s) \<Longrightarrow>
     tasks s ! i = Sending path e \<Longrightarrow>
     step w b s (s\<lparr>tasks := (tasks s)[i := Sent path e], main := Returned (Some e)\<rparr>)"
| wg_Done:
    "\<not> crashed s \<Longrightarrow> i < length (tasks s) \<Longrightarrow> tasks s ! i = Sent path e \<Longrightarrow>
     step w b s (s\<lparr>tasks := (tasks s)[i := Finished path (Some e)]\<rparr>)"
| close_errCh:
    "\<not> crashed s \<Longrightarrow> \<not> closed s \<Longrightarrow> list_all (\<lambda>t. \<exists>p r. t = Finished p r) (tasks s) \<Longrightarrow>
     step w b s (s\<lparr>closed := True\<rparr>)"
| return_nil:
    "\<not> crashed s \<Longrightarrow> closed s \<Longrightarrow> main s = Ranging \<Longrightarrow>
     step w b s (s\<lparr>main := Returned None\<rparr>)"

text \<open>
  The states \<^verbatim>\<open>Run\<close> can be in: after an error before the goroutines it has returned
  that error (or has panicked) with no goroutine started; otherwise the goroutines start
  on the files found, and any number of steps follow.
\<close>

definition Run_start :: "'fs \<Rightarrow> string list \<Rightarrow> 'fs pool" where
  "Run_start fs markdownFiles =
     \<lparr>pfs = fs, tasks = map Todo markdownFiles, closed = False, main = Ranging,
      crashed = False\<rparr>"

definition Run_failed :: "'fs \<Rightarrow> error \<Rightarrow> 'fs pool" where
  "Run_failed fs e =
     \<lparr>pfs = fs, tasks = [], closed = False,
      main = (if e = NilPanic then Ranging else Returned (Some e)),
      crashed = (e = NilPanic)\<rparr>"

inductive Run :: "nat \<Rightarrow> ('fs, 't) world \<Rightarrow> 't Builder \<Rightarrow> 'fs \<Rightarrow> 'fs pool \<Rightarrow> bool"
  for n :: nat and w :: "('fs, 't) world" and b :: "'t Builder" and fs :: 'fs where
  Run_early:
    "Run_setup n w b fs = Some (Inl e, fs1) \<Longrightarrow> Run n w b fs (Run_failed fs1 e)"
| Run_go:
    "Run_setup n w b fs = Some (Inr (b1, markdownFiles), fs1) \<Longrightarrow>
     Run n w b fs (Run_start fs1 markdownFiles)"
| Run_step:
    "Run_setup n w b fs = Some (Inr (b1, markdownFiles), fs1) \<Longrightarrow>
     Run n w b fs s \<Longrightarrow> step w b1 s s' \<Longrightarrow> Run n w b fs s'"

section \<open>Measures and invariants of the goroutines\<close>

text \<open>
  Auxiliary notions for the proofs: the file of a goroutine, the error it has handed
  to \<^verbatim>\<open>Run\<close> or finished with, the number of steps it can still take, that its state
  records what some call of \<^verbatim>\<open>renderContent\<close> on its file has returned (\<open>rendered\<close>), and
  the number of steps the whole process can still take.
\<close>

fun task_path :: "task \<Rightarrow> string" where
  "task_path (Todo p) = p"
| "task_path (Sending p e) = p"
| "task_path (Sent p e) = p"
| "task_path (Finished p r) = p"

fun failure :: "task \<Rightarrow> error option" where
  "failure (Todo p) = None"
| "failure (Sending p e) = None"
| "failure (Sent p e) = Some e"
| "failure (Finished p r) = r"

fun steps_left :: "task \<Rightarrow> nat" where
  "steps_left (Todo p) = 3"
| "steps_left (Sending p e) = 2"
| "steps_left (Sent p e) = 1"
| "steps_left (Finished p r) = 0"

fun rendered :: "('fs, 't) world \<Rightarrow> 't Builder \<Rightarrow> task \<Rightarrow> bool" where
  "rendered w b (Todo p) = True"
| "rendered w b (Sending p e) = (\<exists>fs fs'. renderContent w b fs p = (Some e, fs'))"
| "rendered w b (Sent p e) = (\<exists>fs fs'. renderContent w b fs p = (Some e, fs'))"
| "rendered w b (Finished p r) = (\<exists>fs fs'. renderContent w b fs p = (r, fs'))"

definition run_measure :: "'fs pool \<Rightarrow> nat" where
  "run_measure s =
     sum_list (map steps_left (tasks s)) + (if closed s then 0 else 1) +
     (if main s = Ranging then 1 else 0) + (if crashed s then 0 else 1)"

definition pool_inv :: "'fs pool \<Rightarrow> bool" where
  "pool_inv s \<longleftrightarrow>
     (closed s \<longrightarrow> (\<forall>i < length (tasks s). \<exists>p r. tasks s ! i = Finished p r)) \<and>
     (main s = Ranging \<longrightarrow> (\<forall>i < length (tasks s). failure (tasks s ! i) = None)) \<and>
     (main s = Returned None \<longrightarrow>
        closed s \<and> (\<forall>i < length (tasks s). \<exists>p. tasks s ! i = Finished p None)) \<and>
     (\<forall>e. main s = Returned (Some e) \<longrightarrow>
        (\<exists>i < length (tasks s). failure (tasks s ! i) = Some e))"

section \<open>A world to evaluate the builder in\<close>

text \<open>
  The theorems hold for every world. To evaluate the builder on concrete input, this
  section defines one: the functions of \<^verbatim>\<open>path/filepath\<close> for Unix, a file system in
  memory (a list of paths, each a directory or a regular file with its bytes, relative
  to the working directory \<open>.\<close>), a parser of front matter blocks, a Markdown engine that
  wraps the text in a paragraph, and a template engine that fills the tags of a template
  and writes the \<open>contents\<close> of the context after it.

  \<^verbatim>\<open>filepath.Clean\<close> drops empty and \<open>.\<close> elements, lets \<open>..\<close> remove the element before it,
  drops \<open>..\<close> at the root and keeps it at the start of a relative path; the empty result
  is \<open>.\<close>.
\<close>

fun splitOn :: "char \<Rightarrow> string \<Rightarrow> string list" where
  "splitOn d [] = [[]]"
| "splitOn d (c # s) =
     (if c = d then [] # splitOn d s
      else (case splitOn d s of [] \<Rightarrow> [[c]] | x # xs \<Rightarrow> (c # x) # xs))"

fun joinWith :: "string \<Rightarrow> string list \<Rightarrow> string" where
  "joinWith d [] = []"
| "joinWith d [x] = x"
| "joinWith d (x # y # ys) = x @ d @ joinWith d (y # ys)"

fun unix_Clean_loop :: "bool \<Rightarrow> string list \<Rightarrow> string list \<Rightarrow> string list" where
  "unix_Clean_loop rooted [] out = out"
| "unix_Clean_loop rooted (c # cs) out =
     (if c = [] \<or> c = ''.'' then unix_Clean_loop rooted cs out
      else if c = ''..'' then
        (case out of
           t # ts \<Rightarrow>
             if t \<noteq> ''..'' then unix_Clean_loop rooted cs ts
             else unix_Clean_loop rooted cs (''..'' # out)
         | [] \<Rightarrow>
             if rooted then unix_Clean_loop rooted cs out
             else unix_Clean_loop rooted cs [''..''])
      else unix_Clean_loop rooted cs (c # out))"

definition unix_Clean :: "string \<Rightarrow> string" where
  "unix_Clean path =
     (if path = [] then ''.''
      else
        (let rooted = (hd path = CHR ''/'');
             out = rev (unix_Clean_loop rooted (splitOn CHR ''/'' path) []);
             s = (if rooted then ''/'' else []) @ joinWith ''/'' out
         in if s = [] then ''.'' else s))"

definition unix_Join :: "string list \<Rightarrow> string" where
  "unix_Join elem =
     (case dropWhile (\<lambda>e. e = []) elem of
        [] \<Rightarrow> []
      | e # es \<Rightarrow> unix_Clean (joinWith ''/'' (e # es)))"

definition unix_Dir :: "string \<Rightarrow> string" where
  "unix_Dir path =
     unix_Clean (take (length path - length (takeWhile (\<lambda>c. c \<noteq> CHR ''/'') (rev path))) path)"

definition unix_Base :: "string \<Rightarrow> string" where
  "unix_Base path =
     (if path = [] then ''.''
      else
        (let p = rev (dropWhile (\<lambda>c. c = CHR ''/'') (rev path));
             base = rev (takeWhile (\<lambda>c. c \<noteq> CHR ''/'') (rev p))
         in if base = [] then ''/'' else base))"


datatype node = Directory | Regular string

type_synonym memfs = "(string \<times> node) list"

definition mem_lookup :: "memfs \<Rightarrow> string \<Rightarrow> node option" where
  "mem_lookup fs p = (if p = ''.'' then Some Directory else map_of fs p)"

definition mem_isDir :: "memfs \<Rightarrow> string \<Rightarrow> bool" where
  "mem_isDir fs p = (mem_lookup fs p = Some Directory)"

definition mem_isFile :: "memfs \<Rightarrow> string \<Rightarrow> bool" where
  "mem_isFile fs p = (case mem_lookup fs p of Some (Regular c) \<Rightarrow> True | _ \<Rightarrow> False)"

text \<open>The directories above a path, outermost first: its prefixes that end before a slash.\<close>

definition mem_parents :: "string \<Rightarrow> string list" where
  "mem_parents p = [take i p. i \<leftarrow> [1..<length p], p ! i = CHR ''/'']"

definition mem_put :: "memfs \<Rightarrow> string \<Rightarrow> node \<Rightarrow> memfs" where
  "mem_put fs p n =
     (if p \<in> set (map fst fs) then map (\<lambda>(q, m). if q = p then (q, n) else (q, m)) fs
      else fs @ [(p, n)])"

definition mem_append :: "memfs \<Rightarrow> string \<Rightarrow> string \<Rightarrow> memfs" where
  "mem_append fs p bytes =
     mem_put fs p (Regular ((case mem_lookup fs p of Some (Regular c) \<Rightarrow> c | _ \<Rightarrow> []) @ bytes))"

definition mem_Stat :: "memfs \<Rightarrow> string \<Rightarrow> stat_result" where
  "mem_Stat fs p =
     (if list_ex (mem_isFile fs) (mem_parents p) then StatFailed (OSError ''not a directory'')
      else
        (case mem_lookup fs p of
           None \<Rightarrow> NotExist
         | Some Directory \<Rightarrow> FileInfo True
         | Some (Regular c) \<Rightarrow> FileInfo False))"

definition mem_Mkdir :: "memfs \<Rightarrow> string \<Rightarrow> error option \<times> memfs" where
  "mem_Mkdir fs p =
     (if mem_lookup fs p \<noteq> None then (Some (OSError ''file exists''), fs)
      else if mem_isDir fs (unix_Dir p) then (None, fs @ [(p, Directory)])
      else (Some (OSError ''no such file or directory''), fs))"

fun mem_mkdirs :: "memfs \<Rightarrow> string list \<Rightarrow> error option \<times> memfs" where
  "mem_mkdirs fs [] = (None, fs)"
| "mem_mkdirs fs (d # ds) =
     (if mem_isDir fs d then mem_mkdirs fs ds
      else if mem_isFile fs d then (Some (OSError ''not a directory''), fs)
      else mem_mkdirs (fs @ [(d, Directory)]) ds)"

definition mem_MkdirAll :: "memfs \<Rightarrow> string \<Rightarrow> error option \<times> memfs" where
  "mem_MkdirAll fs p = mem_mkdirs fs (mem_parents p @ [p])"

definition mem_RemoveAll :: "memfs \<Rightarrow> string \<Rightarrow> error option \<times> memfs" where
  "mem_RemoveAll fs p =
     (None, filter (\<lambda>(q, n). q \<noteq> p \<and> take (length p + 1) q \<noteq> p @ ''/'') fs)"

definition mem_ReadDir :: "memfs \<Rightarrow> string \<Rightarrow> error + (string \<times> bool) list" where
  "mem_ReadDir fs p =
     (if mem_isDir fs p
      then Inr (sort_key fst [(unix_Base q, n = Directory). (q, n) \<leftarrow> fs, unix_Dir q = p])
      else Inl (OSError ''not a directory''))"

definition mem_Open :: "memfs \<Rightarrow> string \<Rightarrow> error option" where
  "mem_Open fs p =
     (if mem_lookup fs p = None then Some (OSError ''no such file or directory'') else None)"

definition mem_Create :: "memfs \<Rightarrow> string \<Rightarrow> error option \<times> memfs" where
  "mem_Create fs p =
     (if mem_isDir fs p then (Some (OSError ''is a directory''), fs)
      else if mem_isDir fs (unix_Dir p) then (None, mem_put fs p (Regular []))
      else (Some (OSError ''no such file or directory''), fs))"

definition mem_ReadFile :: "memfs \<Rightarrow> string \<Rightarrow> error + string" where
  "mem_ReadFile fs p =
     (case mem_lookup fs p of
        None \<Rightarrow> Inl (OSError ''no such file or directory'')
      | Some Directory \<Rightarrow> Inl (OSError ''is a directory'')
      | Some (Regular c) \<Rightarrow> Inr c)"

definition mem_Copy :: "memfs \<Rightarrow> string \<Rightarrow> string \<Rightarrow> error option \<times> memfs" where
  "mem_Copy fs dst src =
     (case mem_ReadFile fs src of
        Inl e \<Rightarrow> (Some e, fs)
      | Inr c \<Rightarrow> (None, mem_append fs dst c))"

fun mem_walk :: "nat \<Rightarrow> memfs \<Rightarrow> string \<Rightarrow> visit list" where
  "mem_walk 0 fs path = []"
| "mem_walk (Suc n) fs path =
     (case mem_lookup fs path of
        None \<Rightarrow> [VisitErr path (OSError ''no such file or directory'')]
      | Some (Regular c) \<Rightarrow> [Visit path (unix_Base path) False]
      | Some Directory \<Rightarrow>
          Visit path (unix_Base path) True #
          concat (map (\<lambda>name. mem_walk n fs (unix_Join [path, name]))
            (sort [unix_Base q. (q, m) \<leftarrow> fs, unix_Dir q = unix_Clean path])))"

definition mem_Walk :: "memfs \<Rightarrow> string \<Rightarrow> visit list" where
  "mem_Walk fs root = mem_walk (Suc (length fs)) fs root"

text \<open>A front matter block: a first line \<open>---\<close>, lines \<open>key: value\<close>, a line \<open>---\<close>.\<close>

definition mem_field :: "YamlFrontMatter \<Rightarrow> string \<Rightarrow> YamlFrontMatter" where
  "mem_field yfm line =
     (let k = takeWhile (\<lambda>c. c \<noteq> CHR '':'') line;
          v = drop (length k + 2) line
      in if k = ''post_slug'' then yfm\<lparr>PostSlug := v\<rparr>
         else if k = ''og_image'' then yfm\<lparr>OgImage := v\<rparr>
         else if k = ''emoji'' then yfm\<lparr>Emoji := v\<rparr>
         else yfm\<lparr>Other := Other yfm @ [(k, VString v)]\<rparr>)"

definition mem_Parse :: "string \<Rightarrow> error + (YamlFrontMatter \<times> string)" where
  "mem_Parse content =
     (case splitOn (CHR 0x0A) content of
        [] \<Rightarrow> Inr (zeroYamlFrontMatter, content)
      | l # ls \<Rightarrow>
          if l = ''---'' \<and> ''---'' \<in> set ls
          then Inr (foldl mem_field zeroYamlFrontMatter (takeWhile (\<lambda>x. x \<noteq> ''---'') ls),
                    joinWith [CHR 0x0A] (tl (dropWhile (\<lambda>x. x \<noteq> ''---'') ls)))
          else Inr (zeroYamlFrontMatter, content))"

definition mem_Convert :: "Markdown \<Rightarrow> string \<Rightarrow> error + string" where
  "mem_Convert g markdown = Inr (''<p>'' @ markdown @ ''</p>'')"

text \<open>
  The template engine writes the text of the template, with every tag \<open>{{key}}\<close> replaced
  by the string that the context holds under the key, and the \<open>contents\<close> after it. The
  second argument of \<open>mem_expand\<close> is the key of the tag that is open, if one is.
\<close>

definition mem_show :: "val option \<Rightarrow> string" where
  "mem_show v = (case v of Some (VString c) \<Rightarrow> c | _ \<Rightarrow> [])"

fun mem_expand :: "(string \<rightharpoonup> val) \<Rightarrow> string option \<Rightarrow> string \<Rightarrow> string" where
  "mem_expand ctx None [] = []"
| "mem_expand ctx (Some k) [] = ''{{'' @ k"
| "mem_expand ctx None [c] = [c]"
| "mem_expand ctx None (c # d # s) =
     (if c = CHR ''{'' \<and> d = CHR ''{'' then mem_expand ctx (Some []) s
      else c # mem_expand ctx None (d # s))"
| "mem_expand ctx (Some k) [c] = ''{{'' @ k @ [c]"
| "mem_expand ctx (Some k) (c # d # s) =
     (if c = CHR ''}'' \<and> d = CHR ''}'' then mem_show (ctx k) @ mem_expand ctx None s
      else mem_expand ctx (Some (k @ [c])) (d # s))"

definition mem_FRender ::
  "string \<Rightarrow> memfs \<Rightarrow> string \<Rightarrow> (string \<rightharpoonup> val) \<Rightarrow> error option \<times> memfs" where
  "mem_FRender t fs file ctx =
     (None, mem_append fs file (mem_expand ctx None t @ mem_show (ctx ''contents'')))"

definition mem_SaveTwemojiPng ::
  "YamlFrontMatter \<Rightarrow> memfs \<Rightarrow> string \<Rightarrow> error option \<times> memfs" where
  "mem_SaveTwemojiPng yfm fs file = (None, mem_append fs file (''PNG'' @ Emoji yfm))"

definition mem_AsMap :: "YamlFrontMatter \<Rightarrow> (string \<rightharpoonup> val)" where
  "mem_AsMap yfm =
     map_of (Other yfm @
       [(''post_slug'', VString (PostSlug yfm)), (''og_image'', VString (OgImage yfm)),
        (''emoji'', VString (Emoji yfm))])"

definition mem_world :: "(memfs, string) world" where
  "mem_world =
     \<lparr>runtime_GOOS = Unix,
      filepath_Join = unix_Join,
      filepath_Dir = unix_Dir,
      filepath_Base = unix_Base,
      filepath_Walk = mem_Walk,
      os_Stat = mem_Stat,
      os_Mkdir = mem_Mkdir,
      os_MkdirAll = mem_MkdirAll,
      os_RemoveAll = mem_RemoveAll,
      os_ReadDir = mem_ReadDir,
      os_Open = mem_Open,
      os_Create = mem_Create,
      os_ReadFile = mem_ReadFile,
      io_Copy = mem_Copy,
      frontmatter_Parse = mem_Parse,
      goldmark_Convert = mem_Convert,
      mustache_ParseFile = mem_ReadFile,
      template_FRender = mem_FRender,
      SaveTwemojiPng = mem_SaveTwemojiPng,
      YamlFrontMatter_AsMap = mem_AsMap,
      Config_AsMap = (\<lambda>c. [''base_url'' \<mapsto> VString (BaseUrl c)])\<rparr>"

definition site_config :: Config where
  "site_config =
     \<lparr>BaseUrl = ''https://example.com'', Dist = ''dist'', Static = ''static'',
      Layouts = ''layouts'',
      Build = \<lparr>IgnoreFiles = [''README.md''],
               Goldmark = \<lparr>HighlightConfig = None, RendererOptions = None\<rparr>\<rparr>\<rparr>"

definition site :: memfs where
  "site =
     [(''README.md'', Regular ''readme''),
      (''index.md'', Regular ''hello''),
      (''blog'', Directory),
      (''blog/hello.md'', Regular (''---'' @ [CHR 0x0A] @ ''emoji: x'' @ [CHR 0x0A] @ ''---'' @ [CHR 0x0A] @ ''post'')),
      (''layouts'', Directory),
      (''layouts/default.html'', Regular ''<html>''),
      (''static'', Directory),
      (''static/css'', Directory),
      (''static/css/a.css'', Regular ''css'')]"


text \<open>
  Builders, pages, file systems and states that the evaluations below start from and
  arrive at. \<open>setup_builder\<close> is the builder that \<^verbatim>\<open>Run\<close> hands to its goroutines.
\<close>

definition setup_builder ::
  "nat \<Rightarrow> ('fs, 't) world \<Rightarrow> 't Builder \<Rightarrow> 'fs \<Rightarrow> 't Builder" where
  "setup_builder n w b fs =
     (case Run_setup n w b fs of Some (Inr (b1, files), fs1) \<Rightarrow> b1 | _ \<Rightarrow> b)"

definition site_builder :: "string Builder" where
  "site_builder = setup_builder 5 mem_world (NewBuilder site_config) site"

definition layouts_builder :: "(string \<times> string) list \<Rightarrow> string Builder" where
  "layouts_builder templates = (NewBuilder site_config)\<lparr>templateMap := map_of templates\<rparr>"

definition engine_builder :: "(string \<times> string) list \<Rightarrow> string Builder" where
  "engine_builder templates =
     (layouts_builder templates)\<lparr>gm := Some (initGoldmark (layouts_builder templates))\<rparr>"

definition merge_world :: "(memfs, string) world" where
  "merge_world = mem_world\<lparr>YamlFrontMatter_AsMap := (\<lambda>yfm. map_of (Other yfm))\<rparr>"

definition merge_builder :: "string Builder" where
  "merge_builder = (NewBuilder site_config)\<lparr>baseRenderContext := [''a'' \<mapsto> VInt 1]\<rparr>"

definition merge_page :: FileData where
  "merge_page =
     \<lparr>Path = ''index.md'', Content = ''X'',
      FrontMatter = zeroYamlFrontMatter\<lparr>Other := [(''b'', VInt 3), (''a'', VInt 2)]\<rparr>\<rparr>"

definition contents_builder :: "string Builder" where
  "contents_builder =
     (NewBuilder site_config)\<lparr>baseRenderContext := [''contents'' \<mapsto> VString ''site-wide'']\<rparr>"

definition plain_page :: FileData where
  "plain_page = \<lparr>Path = ''index.md'', Content = ''X'', FrontMatter = zeroYamlFrontMatter\<rparr>"

definition contents_site :: memfs where
  "contents_site =
     [(''index.md'',
       Regular (''---'' @ [CHR 0x0A] @ ''contents: mine'' @ [CHR 0x0A] @ ''---'' @ [CHR 0x0A] @ ''hi''))]"

definition empty_block_site :: memfs where
  "empty_block_site =
     [(''index.md'', Regular (''---'' @ [CHR 0x0A] @ ''---'' @ [CHR 0x0A] @ ''hello''))]"

definition slug_site :: memfs where
  "slug_site =
     [(''blog'', Directory),
      (''blog/hello.md'', Regular ''post''),
      (''blog/named.md'',
       Regular (''---'' @ [CHR 0x0A] @ ''post_slug: my-post'' @ [CHR 0x0A] @ ''---'' @ [CHR 0x0A] @ ''post'')),
      (''dist'', Directory)]"

definition slug_builder :: "string Builder" where
  "slug_builder = engine_builder [(''layouts/default.html'', ''<a>{{post_slug}}</a>'')]"

definition slug_page :: "string \<Rightarrow> string \<Rightarrow> FileData" where
  "slug_page path slug =
     \<lparr>Path = path, Content = ''<p>post</p>'',
      FrontMatter = zeroYamlFrontMatter\<lparr>PostSlug := slug\<rparr>\<rparr>"

definition bare_site :: memfs where
  "bare_site =
     [(''index.md'', Regular ''hello''),
      (''layouts'', Directory),
      (''layouts/default.html'', Regular ''<html>''),
      (''dist'', Directory)]"

definition two_site :: memfs where
  "two_site =
     [(''a.md'', Regular ''A''),
      (''b.md'', Regular ''B''),
      (''layouts'', Directory),
      (''layouts/b.html'', Regular ''<html>'')]"

definition no_static_site :: memfs where
  "no_static_site =
     [(''index.md'', Regular ''hello''),
      (''layouts'', Directory),
      (''layouts/default.html'', Regular ''<html>'')]"

definition unlaid_site :: memfs where
  "unlaid_site = [(''index.md'', Regular ''hello'')]"

definition nested_config :: Config where
  "nested_config = site_config\<lparr>Dist := ''index.md/dist''\<rparr>"

definition built_pool :: "memfs pool" where
  "built_pool =
     \<lparr>pfs = no_static_site @
             [(''dist'', Directory), (''dist/index.html'', Regular ''<html><p>hello</p>'')],
      tasks = [Finished ''index.md'' None], closed = True, main = Returned None,
      crashed = False\<rparr>"

definition sending_pool :: "memfs pool" where
  "sending_pool =
     \<lparr>pfs = two_site @ [(''dist'', Directory), (''dist/a.html'', Regular [])],
      tasks = [Sending ''a.md'' TemplateNotFound, Todo ''b.md''], closed = False,
      main = Ranging, crashed = False\<rparr>"

definition returned_pool :: "memfs pool" where
  "returned_pool =
     \<lparr>pfs = two_site @ [(''dist'', Directory), (''dist/a.html'', Regular [])],
      tasks = [Sent ''a.md'' TemplateNotFound, Todo ''b.md''], closed = False,
      main = Returned (Some TemplateNotFound), crashed = False\<rparr>"

section \<open>Properties of the path functions\<close>

lemma ext_loop_suffix:
  "\<exists>stem. rev unseen @ seen = stem @ ext_loop goos unseen seen"
proof (induction unseen arbitrary: seen)
  case Nil
  show ?case by simp
next
  case (Cons c unseen)
  from Cons.IH [of "c # seen"] show ?case by auto
qed

lemma Ext_suffix: "\<exists>stem. path = stem @ Ext goos path"
  using ext_loop_suffix [of "rev path" "[]" goos] by (simp add: Ext_def)

lemma Ext_length: "length (Ext goos path) \<le> length path"
proof -
  obtain stem where "path = stem @ Ext goos path" using Ext_suffix by blast
  then have "length path = length stem + length (Ext goos path)"
    by (metis length_append)
  then show ?thesis by simp
qed

section \<open>Output paths and discovery\<close>

lemma Ext_upper_MD: "Ext os (stem @ ''.MD'') = ''.MD''"
  by (cases os) (simp_all add: Ext_def IsPathSeparator_def)

lemma ToLower_upper_MD: "ToLower ''.MD'' = ''.md''"
  by code_simp

lemma walkFn_result:
  "walkFn ext visits filePaths = Inr ps \<Longrightarrow>
     ps = filePaths @
       [path. Visit path name isDir \<leftarrow> visits, \<not> isDir \<and> HasSuffix name ext]"
  by (induction ext visits filePaths arbitrary: ps rule: walkFn.induct) auto

text \<open>
  Claim C10. With \<^verbatim>\<open>from\<close> equal to \<open>.md\<close>, \<^verbatim>\<open>replaceExt\<close> puts the new extension in place of
  the last one exactly when the last extension, in lower case, is \<open>.md\<close>, and returns
  the path as it is otherwise. The comparison ignores case, so a path that ends in \<open>.MD\<close>
  is converted; discovery compares the name with \<^verbatim>\<open>strings.HasSuffix\<close>, which does not
  ignore case, and returns the paths of exactly the regular files whose name ends in the
  extension asked for.
\<close>

theorem replaceExt_md_ignores_case:
  "(ToLower (Ext os p) = ''.md'' \<longrightarrow>
      (\<exists>stem. p = stem @ Ext os p \<and> replaceExt os p ''.md'' to = stem @ to)) \<and>
   (ToLower (Ext os p) \<noteq> ''.md'' \<longrightarrow> replaceExt os p ''.md'' to = p) \<and>
   replaceExt os (stem @ ''.MD'') ''.md'' to = stem @ to \<and>
   \<not> HasSuffix (stem @ ''.MD'') ''.md'' \<and>
   (\<forall>ps. getFilePathsByExt w fs dir ext = Inr ps \<longrightarrow>
      ps = [path. Visit path name isDir \<leftarrow> filepath_Walk w fs dir,
              \<not> isDir \<and> HasSuffix name ext])"
proof (intro conjI impI allI)
  assume md: "ToLower (Ext os p) = ''.md''"
  obtain stem where stem: "p = stem @ Ext os p" using Ext_suffix by blast
  then have "length p - length (Ext os p) = length stem"
    by (metis add_diff_cancel_right' length_append)
  with stem have "take (length p - length (Ext os p)) p = stem"
    by (metis append_eq_conv_conj)
  with md have "replaceExt os p ''.md'' to = stem @ to"
    by (simp add: replaceExt_def Let_def)
  with stem show "\<exists>stem. p = stem @ Ext os p \<and> replaceExt os p ''.md'' to = stem @ to"
    by blast
next
  assume "ToLower (Ext os p) \<noteq> ''.md''"
  then show "replaceExt os p ''.md'' to = p" by (simp add: replaceExt_def Let_def)
next
  show "replaceExt os (stem @ ''.MD'') ''.md'' to = stem @ to"
    by (simp add: replaceExt_def Let_def Ext_upper_MD ToLower_upper_MD)
next
  show "\<not> HasSuffix (stem @ ''.MD'') ''.md''" by (simp add: HasSuffix_def)
next
  fix ps
  assume "getFilePathsByExt w fs dir ext = Inr ps"
  then show "ps = [path. Visit path name isDir \<leftarrow> filepath_Walk w fs dir,
              \<not> isDir \<and> HasSuffix name ext]"
    using walkFn_result [of ext "filepath_Walk w fs dir" "[]" ps]
    by (simp add: getFilePathsByExt_def)
qed

theorem replaceExt_md_ignores_case_witness:
  "ToLower (Ext Unix ''blog/Post.Md'') = ''.md'' \<and>
   replaceExt Unix ''blog/Post.Md'' ''.md'' ''.html'' = ''blog/Post.html'' \<and>
   ToLower (Ext Unix ''notes.txt'') \<noteq> ''.md'' \<and>
   replaceExt Unix ''notes.txt'' ''.md'' ''.html'' = ''notes.txt'' \<and>
   replaceExt Unix ''A.MD'' ''.md'' ''.html'' = ''A.html'' \<and>
   getFilePathsByExt mem_world [(''A.MD'', Regular ''x''), (''b.md'', Regular ''y'')] ''.'' ''.md''
     = Inr [''b.md'']"
proof -
  let ?fs = "[(''A.MD'', Regular ''x''), (''b.md'', Regular ''y'')]"
  have e: "Ext Unix ''blog/Post.Md'' = ''.Md''" by code_simp
  have h1: "ToLower (Ext Unix ''blog/Post.Md'') = ''.md''" by code_simp
  have h2: "ToLower (Ext Unix ''notes.txt'') \<noteq> ''.md''" by code_simp
  have h3: "getFilePathsByExt mem_world ?fs ''.'' ''.md'' = Inr [''b.md'']" by code_simp
  note t = replaceExt_md_ignores_case [of Unix _ _ "''A''" mem_world ?fs "''.''" "''.md''"]
  from t [of "''blog/Post.Md''" "''.html''"] h1
  obtain stem where s: "''blog/Post.Md'' = stem @ Ext Unix ''blog/Post.Md''"
    and r: "replaceExt Unix ''blog/Post.Md'' ''.md'' ''.html'' = stem @ ''.html''"
    by blast
  from s e have "stem = ''blog/Post''" by simp
  with r have c1: "replaceExt Unix ''blog/Post.Md'' ''.md'' ''.html'' = ''blog/Post.html''"
    by simp
  from t [of "''notes.txt''" "''.html''"] h2
  have c2: "replaceExt Unix ''notes.txt'' ''.md'' ''.html'' = ''notes.txt''" by blast
  from t [of "''x''" "''.html''"]
  have c3: "replaceExt Unix ''A.MD'' ''.md'' ''.html'' = ''A.html''" by simp
  from h1 c1 h2 c2 c3 h3 show ?thesis by blast
qed

section \<open>Template resolution\<close>

lemma initTemplateMap_loop_dom:
  "initTemplateMap_loop w fs files m = Inr m' \<Longrightarrow> dom m' = dom m \<union> set files"
  by (induction files arbitrary: m) (auto split: sum.splits)

lemma initTemplateMap_dom:
  "initTemplateMap w b fs files = Inr b' \<Longrightarrow> dom (templateMap b') = set files"
proof -
  assume a: "initTemplateMap w b fs files = Inr b'"
  then obtain m where m: "initTemplateMap_loop w fs files Map.empty = Inr m"
    and b': "b' = b\<lparr>templateMap := m\<rparr>"
    by (auto simp: initTemplateMap_def split: sum.splits)
  from initTemplateMap_loop_dom [OF m] have "dom m = set files" by simp
  with b' show ?thesis by simp
qed

text \<open>
  Claim C1. For every registry and every output path \<open>p\<close>, \<^verbatim>\<open>lookUpTemplate\<close> returns the
  entry with the key \<^verbatim>\<open>Join(layouts, p)\<close> when there is one; otherwise the entry with the
  key \<^verbatim>\<open>Join(layouts, Dir(p), "default.html")\<close> when there is one; otherwise the entry with
  the key \<^verbatim>\<open>Join(layouts, "default.html")\<close> when there is one. It fails exactly when the
  registry has none of the three keys, and then with "template not found". The keys of a
  registry that \<^verbatim>\<open>initTemplateMap\<close> has loaded are the layout files it was given.
\<close>

theorem lookUpTemplate_three_tiers:
  "let exact = filepath_Join w [Layouts (config b), p];
       dirDefault = filepath_Join w [Layouts (config b), filepath_Dir w p, ''default.html''];
       globalDefault = filepath_Join w [Layouts (config b), ''default.html'']
   in (\<forall>t. templateMap b exact = Some t \<longrightarrow> lookUpTemplate w b p = Inr t) \<and>
      (\<forall>t. templateMap b exact = None \<and> templateMap b dirDefault = Some t \<longrightarrow>
           lookUpTemplate w b p = Inr t) \<and>
      (\<forall>t. templateMap b exact = None \<and> templateMap b dirDefault = None \<and>
           templateMap b globalDefault = Some t \<longrightarrow> lookUpTemplate w b p = Inr t) \<and>
      ((\<exists>e. lookUpTemplate w b p = Inl e) \<longleftrightarrow>
         exact \<notin> dom (templateMap b) \<and> dirDefault \<notin> dom (templateMap b) \<and>
         globalDefault \<notin> dom (templateMap b)) \<and>
      (\<forall>e. lookUpTemplate w b p = Inl e \<longrightarrow> e = TemplateNotFound) \<and>
      (\<forall>b0 fs files. initTemplateMap w b0 fs files = Inr b \<longrightarrow>
           dom (templateMap b) = set files)"
  unfolding Let_def
  apply (intro conjI allI impI)
       apply (simp add: lookUpTemplate_def)
      apply (simp add: lookUpTemplate_def)
     apply (simp add: lookUpTemplate_def)
    apply (auto simp: lookUpTemplate_def Let_def split: option.splits)[1]
   apply (auto simp: lookUpTemplate_def Let_def split: option.splits)[1]
  apply (erule initTemplateMap_dom)
  done

theorem lookUpTemplate_three_tiers_witness:
  "lookUpTemplate mem_world
     (layouts_builder [(''layouts/default.html'', ''G'')]) ''blog/post.html'' = Inr ''G'' \<and>
   lookUpTemplate mem_world
     (layouts_builder [(''layouts/default.html'', ''G''), (''layouts/blog/default.html'', ''D'')])
     ''blog/post.html'' = Inr ''D'' \<and>
   lookUpTemplate mem_world
     (layouts_builder [(''layouts/default.html'', ''G''), (''layouts/blog/default.html'', ''D''),
        (''layouts/blog/post.html'', ''P'')])
     ''blog/post.html'' = Inr ''P'' \<and>
   lookUpTemplate mem_world (layouts_builder []) ''blog/post.html'' = Inl TemplateNotFound \<and>
   initTemplateMap mem_world (NewBuilder site_config) site [''layouts/default.html'']
     = Inr (layouts_builder [(''layouts/default.html'', ''<html>'')]) \<and>
   dom (templateMap (layouts_builder [(''layouts/default.html'', ''<html>'')]))
     = {''layouts/default.html''}"
proof -
  let ?G = "layouts_builder [(''layouts/default.html'', ''G'')]"
  let ?D = "layouts_builder [(''layouts/default.html'', ''G''), (''layouts/blog/default.html'', ''D'')]"
  let ?P = "layouts_builder [(''layouts/default.html'', ''G''), (''layouts/blog/default.html'', ''D''),
        (''layouts/blog/post.html'', ''P'')]"
  let ?N = "layouts_builder []"
  let ?H = "layouts_builder [(''layouts/default.html'', ''<html>'')]"
  have L: "Layouts (config (layouts_builder ts)) = ''layouts''" for ts
    by (simp add: layouts_builder_def NewBuilder_def site_config_def)
  have j1: "filepath_Join mem_world [''layouts'', ''blog/post.html''] = ''layouts/blog/post.html''"
    by code_simp
  have j2: "filepath_Join mem_world [''layouts'', filepath_Dir mem_world ''blog/post.html'', ''default.html'']
              = ''layouts/blog/default.html''"
    by code_simp
  have j3: "filepath_Join mem_world [''layouts'', ''default.html''] = ''layouts/default.html''"
    by code_simp
  have T: "templateMap (layouts_builder ts) = map_of ts" for ts
    by (simp add: layouts_builder_def)
  {
    fix ts
    note lookUpTemplate_three_tiers [of mem_world "layouts_builder ts" "''blog/post.html''",
      unfolded Let_def L j1 j2 j3 T]
  }
  note t = this
  from t [of "[(''layouts/default.html'', ''G'')]"]
  have c1: "lookUpTemplate mem_world ?G ''blog/post.html'' = Inr ''G''" by simp
  from t [of "[(''layouts/default.html'', ''G''), (''layouts/blog/default.html'', ''D'')]"]
  have c2: "lookUpTemplate mem_world ?D ''blog/post.html'' = Inr ''D''" by simp
  from t [of "[(''layouts/default.html'', ''G''), (''layouts/blog/default.html'', ''D''),
        (''layouts/blog/post.html'', ''P'')]"]
  have c3: "lookUpTemplate mem_world ?P ''blog/post.html'' = Inr ''P''" by simp
  from t [of "[]"]
  have c4: "lookUpTemplate mem_world ?N ''blog/post.html'' = Inl TemplateNotFound"
    by auto
  have c5: "initTemplateMap mem_world (NewBuilder site_config) site [''layouts/default.html'']
     = Inr ?H"
  proof -
    have "mustache_ParseFile mem_world site ''layouts/default.html'' = Inr ''<html>''"
      by code_simp
    then show ?thesis
      by (simp add: initTemplateMap_def layouts_builder_def)
  qed
  note t [of "[(''layouts/default.html'', ''<html>'')]", THEN conjunct2, THEN conjunct2,
    THEN conjunct2, THEN conjunct2, THEN conjunct2, rule_format, OF c5]
  then have c6: "dom (templateMap ?H) = {''layouts/default.html''}" by (simp add: T)
  from c1 c2 c3 c4 c5 c6 show ?thesis by simp
qed

section \<open>The render context\<close>

text \<open>
  Claim C2, amended. The render context holds, for every key of the front matter, the
  value of the front matter; for every other key of the base context, the value of the
  base context; and it maps \<open>contents\<close> to the rendered HTML when neither the base
  context nor the front matter has a key \<open>contents\<close>. It has no other key. With the base
  context \<open>{a:1}\<close>, the front matter \<open>{a:2, b:3}\<close> and the content \<open>X\<close> it is
  \<open>{contents:X, a:2, b:3}\<close>.
\<close>

theorem getRenderContext_merge:
  "\<exists>m. getRenderContext w b fd = Inr m \<and>
     (''contents'' \<notin> dom (baseRenderContext b) \<and>
      ''contents'' \<notin> dom (YamlFrontMatter_AsMap w (FrontMatter fd)) \<longrightarrow>
        m ''contents'' = Some (VString (Content fd))) \<and>
     (\<forall>k v. YamlFrontMatter_AsMap w (FrontMatter fd) k = Some v \<longrightarrow> m k = Some v) \<and>
     (\<forall>k. YamlFrontMatter_AsMap w (FrontMatter fd) k = None \<longrightarrow>
          k \<in> dom (baseRenderContext b) \<longrightarrow> m k = baseRenderContext b k) \<and>
     (\<forall>k. YamlFrontMatter_AsMap w (FrontMatter fd) k = None \<longrightarrow>
          baseRenderContext b k = None \<longrightarrow> k \<noteq> ''contents'' \<longrightarrow> m k = None) \<and>
     (baseRenderContext b = [''a'' \<mapsto> VInt 1] \<and>
      YamlFrontMatter_AsMap w (FrontMatter fd) = [''a'' \<mapsto> VInt 2, ''b'' \<mapsto> VInt 3] \<and>
      Content fd = ''X'' \<longrightarrow>
        m = [''contents'' \<mapsto> VString ''X'', ''a'' \<mapsto> VInt 2, ''b'' \<mapsto> VInt 3])"
  unfolding getRenderContext_def Let_def
  apply (rule exI, rule conjI, rule refl)
  apply (intro conjI allI impI)
      apply (simp add: map_add_def domIff split: option.splits)
     apply (simp add: map_add_def)
    apply (auto simp: map_add_def split: option.splits)[1]
   apply (simp add: map_add_def)
  apply (rule ext)
  apply (auto simp: map_add_def)
  done

theorem getRenderContext_merge_witness:
  "getRenderContext merge_world merge_builder merge_page
     = Inr [''contents'' \<mapsto> VString ''X'', ''a'' \<mapsto> VInt 2, ''b'' \<mapsto> VInt 3]"
proof -
  have h1: "baseRenderContext merge_builder = [''a'' \<mapsto> VInt 1]"
    by (simp add: merge_builder_def)
  have h2: "YamlFrontMatter_AsMap merge_world (FrontMatter merge_page)
              = [''a'' \<mapsto> VInt 2, ''b'' \<mapsto> VInt 3]"
    by (simp add: merge_world_def merge_page_def zeroYamlFrontMatter_def)
  have h3: "Content merge_page = ''X''" by (simp add: merge_page_def)
  from getRenderContext_merge [of merge_world merge_builder merge_page] h1 h2 h3
  show ?thesis by metis
qed

text \<open>
  The claim as it was stated fails for a base context with a key \<open>contents\<close>: the loop
  over the base context stores its value over the rendered HTML.
\<close>

theorem getRenderContext_merge_counterexample:
  "\<not> isl (getRenderContext mem_world contents_builder plain_page) \<and>
   projr (getRenderContext mem_world contents_builder plain_page) ''contents''
     = Some (VString ''site-wide'') \<and>
   Content plain_page = ''X'' \<and>
   VString ''site-wide'' \<noteq> VString (Content plain_page)"
  by code_simp

text \<open>
  Claim C6, amended. \<^verbatim>\<open>getRenderContext\<close> stores \<open>contents\<close> first and the two maps after
  it, so a key \<open>contents\<close> of the front matter wins, then one of the base context, and
  the rendered HTML stays only when neither map has the key.
\<close>

theorem getRenderContext_contents:
  "\<exists>m. getRenderContext w b fd = Inr m \<and>
     m ''contents'' =
       (case YamlFrontMatter_AsMap w (FrontMatter fd) ''contents'' of
          Some v \<Rightarrow> Some v
        | None \<Rightarrow>
            (case baseRenderContext b ''contents'' of
               Some v \<Rightarrow> Some v
             | None \<Rightarrow> Some (VString (Content fd))))"
  by (simp add: getRenderContext_def Let_def map_add_def split: option.splits)

theorem getRenderContext_contents_witness:
  "projr (getRenderContext mem_world (NewBuilder site_config) plain_page) ''contents''
     = Some (VString ''X'') \<and>
   projr (getRenderContext mem_world contents_builder plain_page) ''contents''
     = Some (VString ''site-wide'')"
proof -
  have h1: "YamlFrontMatter_AsMap mem_world (FrontMatter plain_page) ''contents'' = None"
    by code_simp
  have h2: "baseRenderContext (NewBuilder site_config :: string Builder) ''contents'' = None"
    by (simp add: NewBuilder_def)
  have h3: "baseRenderContext contents_builder ''contents'' = Some (VString ''site-wide'')"
    by (simp add: contents_builder_def)
  have h4: "Content plain_page = ''X''" by (simp add: plain_page_def)
  from getRenderContext_contents [of mem_world "NewBuilder site_config" plain_page] h1 h2 h4
  have c1: "projr (getRenderContext mem_world (NewBuilder site_config) plain_page) ''contents''
     = Some (VString ''X'')" by auto
  from getRenderContext_contents [of mem_world contents_builder plain_page] h1 h3
  have c2: "projr (getRenderContext mem_world contents_builder plain_page) ''contents''
     = Some (VString ''site-wide'')" by auto
  from c1 c2 show ?thesis by simp
qed

text \<open>
  The claim as it was stated fails for a page whose front matter has a key \<open>contents\<close>:
  the context maps \<open>contents\<close> to the value of the front matter, not to the rendered
  HTML.
\<close>

theorem getRenderContext_contents_counterexample:
  "getFileData mem_world (engine_builder []) contents_site ''index.md''
     = Inr \<lparr>Path = ''index.md'', Content = ''<p>hi</p>'',
            FrontMatter = zeroYamlFrontMatter\<lparr>Other := [(''contents'', VString ''mine'')]\<rparr>\<rparr> \<and>
   \<not> isl (getRenderContext mem_world (engine_builder [])
     \<lparr>Path = ''index.md'', Content = ''<p>hi</p>'',
      FrontMatter = zeroYamlFrontMatter\<lparr>Other := [(''contents'', VString ''mine'')]\<rparr>\<rparr>) \<and>
   projr (getRenderContext mem_world (engine_builder [])
     \<lparr>Path = ''index.md'', Content = ''<p>hi</p>'',
      FrontMatter = zeroYamlFrontMatter\<lparr>Other := [(''contents'', VString ''mine'')]\<rparr>\<rparr>) ''contents''
     = Some (VString ''mine'') \<and>
   VString ''mine'' \<noteq> VString ''<p>hi</p>''"
  by code_simp

section \<open>Extraction\<close>

text \<open>
  Claim C4, amended. When \<^verbatim>\<open>getFileData\<close> succeeds, the content of the document is the
  Markdown rendering of the bytes that the front matter parser left. Its front matter is
  the zero value when the parser left the bytes of the file unchanged, and otherwise the
  metadata that the parser decoded, which can itself be the zero value.
\<close>

theorem getFileData_result:
  "getFileData w b fs p = Inr fd \<Longrightarrow>
     \<exists>content yfm markdown.
       os_ReadFile w fs p = Inr content \<and>
       frontmatter_Parse w content = Inr (yfm, markdown) \<and>
       (\<exists>engine. gm b = Some engine \<and>
          goldmark_Convert w engine markdown = Inr (Content fd)) \<and>
       Path fd = p \<and>
       (markdown = content \<longrightarrow> FrontMatter fd = zeroYamlFrontMatter) \<and>
       (markdown \<noteq> content \<longrightarrow> FrontMatter fd = yfm)"
  by (auto simp: getFileData_def Let_def zeroFileData_def
      split: sum.splits prod.splits option.splits if_splits)

theorem getFileData_result_witness:
  "getFileData mem_world site_builder site ''blog/hello.md''
     = Inr \<lparr>Path = ''blog/hello.md'', Content = ''<p>post</p>'',
            FrontMatter = zeroYamlFrontMatter\<lparr>Emoji := ''x''\<rparr>\<rparr> \<and>
   getFileData mem_world site_builder site ''index.md''
     = Inr \<lparr>Path = ''index.md'', Content = ''<p>hello</p>'',
            FrontMatter = zeroYamlFrontMatter\<rparr> \<and>
   frontmatter_Parse mem_world ''hello'' = Inr (zeroYamlFrontMatter, ''hello'')"
proof -
  let ?post = "\<lparr>Path = ''blog/hello.md'', Content = ''<p>post</p>'',
            FrontMatter = zeroYamlFrontMatter\<lparr>Emoji := ''x''\<rparr>\<rparr>"
  let ?index = "\<lparr>Path = ''index.md'', Content = ''<p>hello</p>'',
            FrontMatter = zeroYamlFrontMatter\<rparr>"
  have h1: "getFileData mem_world site_builder site ''blog/hello.md'' = Inr ?post"
    by code_simp
  have h2: "getFileData mem_world site_builder site ''index.md'' = Inr ?index"
    by code_simp
  have r: "os_ReadFile mem_world site ''index.md'' = Inr ''hello''" by code_simp
  from getFileData_result [OF h2] r
  have "\<exists>yfm markdown. frontmatter_Parse mem_world ''hello'' = Inr (yfm, markdown) \<and>
          (markdown = ''hello'' \<longrightarrow> FrontMatter ?index = zeroYamlFrontMatter) \<and>
          (markdown \<noteq> ''hello'' \<longrightarrow> FrontMatter ?index = yfm)"
    by auto
  moreover have "frontmatter_Parse mem_world ''hello'' = Inr (zeroYamlFrontMatter, ''hello'')"
    by code_simp
  ultimately show ?thesis using h1 h2 by simp
qed

text \<open>
  The claim as it was stated fails from right to left for a file with an empty front
  matter block: the parser removes the block, so the bytes it leaves differ from the
  file, and the front matter of the document is still the zero value.
\<close>

theorem getFileData_result_counterexample:
  "os_ReadFile mem_world empty_block_site ''index.md''
     = Inr (''---'' @ [CHR 0x0A] @ ''---'' @ [CHR 0x0A] @ ''hello'') \<and>
   frontmatter_Parse mem_world (''---'' @ [CHR 0x0A] @ ''---'' @ [CHR 0x0A] @ ''hello'')
     = Inr (zeroYamlFrontMatter, ''hello'') \<and>
   ''hello'' \<noteq> ''---'' @ [CHR 0x0A] @ ''---'' @ [CHR 0x0A] @ ''hello'' \<and>
   getFileData mem_world (engine_builder []) empty_block_site ''index.md''
     = Inr \<lparr>Path = ''index.md'', Content = ''<p>hello</p>'', FrontMatter = zeroYamlFrontMatter\<rparr>"
  by code_simp

section \<open>The slug and the order of the steps of a page\<close>

lemma ToSlash_no_Separator:
  "Separator os \<in> set (ToSlash os s) \<Longrightarrow> Separator os = CHR ''/''"
  by (auto simp: ToSlash_def split: if_splits)

lemma Ext_md: "Ext os (stem @ ''.md'') = ''.md''"
  by (cases os) (simp_all add: Ext_def IsPathSeparator_def)

lemma ToLower_md: "ToLower ''.md'' = ''.md''"
  by code_simp

lemma convertMarkdownPathToHtmlPath_md:
  "convertMarkdownPathToHtmlPath os (stem @ ''.md'') = stem @ ''.html''"
  by (simp add: convertMarkdownPathToHtmlPath_def replaceExt_def Let_def Ext_md ToLower_md)

lemma TrimSuffix_append: "TrimSuffix (stem @ suffix) suffix = stem"
  by (simp add: TrimSuffix_def HasSuffix_def)

lemma ogImage_PostSlug:
  "ogImage w b fs p fd = (Inr fd2, fs2) \<Longrightarrow>
     PostSlug (FrontMatter fd2) = PostSlug (FrontMatter fd)"
  by (auto simp: ogImage_def Let_def split: if_splits prod.splits option.splits)

text \<open>
  The slug step on its own: what it does to a page with an empty slug and to one with a
  slug, that doing it twice is doing it once, the slug of a source \<open>stem.md\<close>, and that
  the share image step after it leaves the slug alone.
\<close>

lemma postSlug_step:
  "(PostSlug (FrontMatter fd) = [] \<longrightarrow>
      postSlug os html fd
        = fd\<lparr>FrontMatter :=
             (FrontMatter fd)\<lparr>PostSlug := ToSlash os (TrimSuffix html ''.html'')\<rparr>\<rparr>) \<and>
   (PostSlug (FrontMatter fd) \<noteq> [] \<longrightarrow> postSlug os html fd = fd) \<and>
   postSlug os html (postSlug os html fd) = postSlug os html fd \<and>
   (PostSlug (FrontMatter fd) = [] \<longrightarrow>
      PostSlug (FrontMatter
        (postSlug os (convertMarkdownPathToHtmlPath os (stem @ ''.md'')) fd)) = ToSlash os stem) \<and>
   (Separator os \<in> set (ToSlash os s) \<longrightarrow> Separator os = CHR ''/'') \<and>
   (PostSlug (FrontMatter fd) = [] \<longrightarrow>
      PostSlug (FrontMatter
        (postSlug Unix (convertMarkdownPathToHtmlPath Unix ''blog/hello.md'') fd)) = ''blog/hello'') \<and>
   (PostSlug (FrontMatter fd) = [] \<longrightarrow>
      PostSlug (FrontMatter
        (postSlug Windows
           (convertMarkdownPathToHtmlPath Windows (''blog'' @ [CHR 0x5C] @ ''hello.md'')) fd))
        = ''blog/hello'') \<and>
   (ogImage w b fs p (postSlug os html fd) = (Inr fd2, fs2) \<longrightarrow>
      PostSlug (FrontMatter fd2) = PostSlug (FrontMatter (postSlug os html fd)))"
proof (intro conjI impI)
  show "postSlug os html (postSlug os html fd) = postSlug os html fd"
    by (simp add: postSlug_def)
next
  assume "Separator os \<in> set (ToSlash os s)"
  then show "Separator os = CHR ''/''" by (rule ToSlash_no_Separator)
next
  assume "ogImage w b fs p (postSlug os html fd) = (Inr fd2, fs2)"
  then show "PostSlug (FrontMatter fd2) = PostSlug (FrontMatter (postSlug os html fd))"
    by (rule ogImage_PostSlug)
next
  assume e: "PostSlug (FrontMatter fd) = []"
  then show "postSlug os html fd
        = fd\<lparr>FrontMatter :=
             (FrontMatter fd)\<lparr>PostSlug := ToSlash os (TrimSuffix html ''.html'')\<rparr>\<rparr>"
    by (simp add: postSlug_def)
  from e show "PostSlug (FrontMatter
        (postSlug os (convertMarkdownPathToHtmlPath os (stem @ ''.md'')) fd)) = ToSlash os stem"
    by (simp add: postSlug_def convertMarkdownPathToHtmlPath_md TrimSuffix_append)
  have u: "convertMarkdownPathToHtmlPath Unix (''blog/hello'' @ ''.md'') = ''blog/hello'' @ ''.html''"
    by (rule convertMarkdownPathToHtmlPath_md)
  from e u show "PostSlug (FrontMatter
        (postSlug Unix (convertMarkdownPathToHtmlPath Unix ''blog/hello.md'') fd)) = ''blog/hello''"
    by (simp add: postSlug_def TrimSuffix_def HasSuffix_def ToSlash_def Separator_def)
  have v: "convertMarkdownPathToHtmlPath Windows ((''blog'' @ [CHR 0x5C] @ ''hello'') @ ''.md'')
             = (''blog'' @ [CHR 0x5C] @ ''hello'') @ ''.html''"
    by (rule convertMarkdownPathToHtmlPath_md)
  from e v show "PostSlug (FrontMatter
        (postSlug Windows
           (convertMarkdownPathToHtmlPath Windows (''blog'' @ [CHR 0x5C] @ ''hello.md'')) fd))
        = ''blog/hello''"
    by (simp add: postSlug_def TrimSuffix_def HasSuffix_def ToSlash_def Separator_def)
next
  assume "PostSlug (FrontMatter fd) \<noteq> []"
  then show "postSlug os html fd = fd" by (simp add: postSlug_def)
qed

text \<open>
  Claim C5. \<^verbatim>\<open>renderContent\<close>, once it has created the destination file, resolved the
  template and extracted the document, renders the template on the context of the
  document after the slug step and the share image step: the slug that the template sees
  is the one the slug step has set. For a document with an empty slug the step sets the
  slug, and nothing else, to the output path without its suffix \<open>.html\<close> and with every
  separator of the platform turned into a forward slash: for a source \<open>stem.md\<close> that is
  \<open>stem\<close>, and for \<open>blog/hello.md\<close> it is \<open>blog/hello\<close> on Unix and on Windows. A slug
  that is not empty stays, and the step is idempotent.
\<close>

theorem renderContent_sets_slug:
  "(html = convertMarkdownPathToHtmlPath (runtime_GOOS w) p \<and>
    createDistFile w fs (filepath_Join w [Dist (config b), html]) = (Inr f, fs1) \<and>
    lookUpTemplate w b html = Inr t \<and>
    getFileData w b fs1 p = Inr fd \<longrightarrow>
      (ogImage w b fs1 p (postSlug (runtime_GOOS w) html fd) = (Inl e, fs2) \<longrightarrow>
         renderContent w b fs p = (Some e, fs2)) \<and>
      (ogImage w b fs1 p (postSlug (runtime_GOOS w) html fd) = (Inr fd2, fs2) \<longrightarrow>
         PostSlug (FrontMatter fd2) = PostSlug (FrontMatter (postSlug (runtime_GOOS w) html fd)) \<and>
         renderContent w b fs p
           = template_FRender w t fs2 f
               (Map.empty(''contents'' \<mapsto> VString (Content fd2)) ++ baseRenderContext b ++
                YamlFrontMatter_AsMap w (FrontMatter fd2)))) \<and>
   (PostSlug (FrontMatter fd) = [] \<longrightarrow>
      postSlug os html fd
        = fd\<lparr>FrontMatter :=
             (FrontMatter fd)\<lparr>PostSlug := ToSlash os (TrimSuffix html ''.html'')\<rparr>\<rparr>) \<and>
   (PostSlug (FrontMatter fd) \<noteq> [] \<longrightarrow> postSlug os html fd = fd) \<and>
   postSlug os html (postSlug os html fd) = postSlug os html fd \<and>
   convertMarkdownPathToHtmlPath os (stem @ ''.md'') = stem @ ''.html'' \<and>
   ToSlash os (TrimSuffix (stem @ ''.html'') ''.html'') = ToSlash os stem \<and>
   (Separator os \<in> set (ToSlash os s) \<longrightarrow> Separator os = CHR ''/'') \<and>
   ToSlash Unix (TrimSuffix (convertMarkdownPathToHtmlPath Unix ''blog/hello.md'') ''.html'')
     = ''blog/hello'' \<and>
   ToSlash Windows
     (TrimSuffix (convertMarkdownPathToHtmlPath Windows (''blog'' @ [CHR 0x5C] @ ''hello.md''))
        ''.html'')
     = ''blog/hello''"
proof -
  have rendering:
    "(ogImage w b fs1 p (postSlug (runtime_GOOS w) html fd) = (Inl e, fs2) \<longrightarrow>
         renderContent w b fs p = (Some e, fs2)) \<and>
      (ogImage w b fs1 p (postSlug (runtime_GOOS w) html fd) = (Inr fd2, fs2) \<longrightarrow>
         PostSlug (FrontMatter fd2) = PostSlug (FrontMatter (postSlug (runtime_GOOS w) html fd)) \<and>
         renderContent w b fs p
           = template_FRender w t fs2 f
               (Map.empty(''contents'' \<mapsto> VString (Content fd2)) ++ baseRenderContext b ++
                YamlFrontMatter_AsMap w (FrontMatter fd2)))"
    if "html = convertMarkdownPathToHtmlPath (runtime_GOOS w) p \<and>
        createDistFile w fs (filepath_Join w [Dist (config b), html]) = (Inr f, fs1) \<and>
        lookUpTemplate w b html = Inr t \<and>
        getFileData w b fs1 p = Inr fd"
    using that ogImage_PostSlug [of w b fs1 p "postSlug (runtime_GOOS w) html fd" fd2 fs2]
    by (auto simp: renderContent_def getRenderContext_def Let_def)
  have u: "convertMarkdownPathToHtmlPath Unix (''blog/hello'' @ ''.md'') = ''blog/hello'' @ ''.html''"
    by (rule convertMarkdownPathToHtmlPath_md)
  have v: "convertMarkdownPathToHtmlPath Windows ((''blog'' @ [CHR 0x5C] @ ''hello'') @ ''.md'')
             = (''blog'' @ [CHR 0x5C] @ ''hello'') @ ''.html''"
    by (rule convertMarkdownPathToHtmlPath_md)
  have unix: "ToSlash Unix
      (TrimSuffix (convertMarkdownPathToHtmlPath Unix ''blog/hello.md'') ''.html'') = ''blog/hello''"
    using u by (simp add: TrimSuffix_def HasSuffix_def ToSlash_def Separator_def)
  have windows: "ToSlash Windows
     (TrimSuffix (convertMarkdownPathToHtmlPath Windows (''blog'' @ [CHR 0x5C] @ ''hello.md''))
        ''.html'') = ''blog/hello''"
    using v by (simp add: TrimSuffix_def HasSuffix_def ToSlash_def Separator_def)
  have empty: "PostSlug (FrontMatter fd) = [] \<longrightarrow>
      postSlug os html fd
        = fd\<lparr>FrontMatter :=
             (FrontMatter fd)\<lparr>PostSlug := ToSlash os (TrimSuffix html ''.html'')\<rparr>\<rparr>"
    by (simp add: postSlug_def)
  have kept: "PostSlug (FrontMatter fd) \<noteq> [] \<longrightarrow> postSlug os html fd = fd"
    by (simp add: postSlug_def)
  have twice: "postSlug os html (postSlug os html fd) = postSlug os html fd"
    by (simp add: postSlug_def)
  have html_path: "convertMarkdownPathToHtmlPath os (stem @ ''.md'') = stem @ ''.html''"
    by (rule convertMarkdownPathToHtmlPath_md)
  have trimmed: "ToSlash os (TrimSuffix (stem @ ''.html'') ''.html'') = ToSlash os stem"
    by (simp only: TrimSuffix_append)
  have slashes: "Separator os \<in> set (ToSlash os s) \<longrightarrow> Separator os = CHR ''/''"
    using ToSlash_no_Separator [of os s] by (rule impI)
  from rendering have first:
    "html = convertMarkdownPathToHtmlPath (runtime_GOOS w) p \<and>
     createDistFile w fs (filepath_Join w [Dist (config b), html]) = (Inr f, fs1) \<and>
     lookUpTemplate w b html = Inr t \<and>
     getFileData w b fs1 p = Inr fd \<longrightarrow>
      (ogImage w b fs1 p (postSlug (runtime_GOOS w) html fd) = (Inl e, fs2) \<longrightarrow>
         renderContent w b fs p = (Some e, fs2)) \<and>
      (ogImage w b fs1 p (postSlug (runtime_GOOS w) html fd) = (Inr fd2, fs2) \<longrightarrow>
         PostSlug (FrontMatter fd2) = PostSlug (FrontMatter (postSlug (runtime_GOOS w) html fd)) \<and>
         renderContent w b fs p
           = template_FRender w t fs2 f
               (Map.empty(''contents'' \<mapsto> VString (Content fd2)) ++ baseRenderContext b ++
                YamlFrontMatter_AsMap w (FrontMatter fd2)))"
    by (rule impI)
  show ?thesis
    apply (rule conjI, rule first)
    apply (rule conjI, rule empty)
    apply (rule conjI, rule kept)
    apply (rule conjI, rule twice)
    apply (rule conjI, rule html_path)
    apply (rule conjI, rule trimmed)
    apply (rule conjI, rule slashes)
    apply (rule conjI, rule unix)
    apply (rule windows)
    done
qed

theorem renderContent_sets_slug_witness:
  "renderContent mem_world slug_builder slug_site ''blog/hello.md''
     = (None, slug_site @
          [(''dist/blog'', Directory),
           (''dist/blog/hello.html'', Regular ''<a>blog/hello</a><p>post</p>'')]) \<and>
   renderContent mem_world slug_builder slug_site ''blog/named.md''
     = (None, slug_site @
          [(''dist/blog'', Directory),
           (''dist/blog/named.html'', Regular ''<a>my-post</a><p>post</p>'')]) \<and>
   postSlug Windows
     (convertMarkdownPathToHtmlPath Windows (''blog'' @ [CHR 0x5C] @ ''hello.md''))
     (slug_page (''blog'' @ [CHR 0x5C] @ ''hello.md'') [])
     = slug_page (''blog'' @ [CHR 0x5C] @ ''hello.md'') ''blog/hello'' \<and>
   postSlug Unix ''blog/named.html'' (slug_page ''blog/named.md'' ''my-post'')
     = slug_page ''blog/named.md'' ''my-post''"
proof -
  let ?hello = "slug_site @ [(''dist/blog'', Directory), (''dist/blog/hello.html'', Regular [])]"
  let ?named = "slug_site @ [(''dist/blog'', Directory), (''dist/blog/named.html'', Regular [])]"
  have hello_steps:
    "''blog/hello.html'' = convertMarkdownPathToHtmlPath (runtime_GOOS mem_world) ''blog/hello.md'' \<and>
     createDistFile mem_world slug_site
       (filepath_Join mem_world [Dist (config slug_builder), ''blog/hello.html''])
       = (Inr ''dist/blog/hello.html'', ?hello) \<and>
     lookUpTemplate mem_world slug_builder ''blog/hello.html'' = Inr ''<a>{{post_slug}}</a>'' \<and>
     getFileData mem_world slug_builder ?hello ''blog/hello.md''
       = Inr (slug_page ''blog/hello.md'' [])"
    by code_simp
  have hello_image:
    "ogImage mem_world slug_builder ?hello ''blog/hello.md''
       (postSlug (runtime_GOOS mem_world) ''blog/hello.html'' (slug_page ''blog/hello.md'' []))
       = (Inr (slug_page ''blog/hello.md'' ''blog/hello''), ?hello)"
    by code_simp
  have hello_render:
    "template_FRender mem_world ''<a>{{post_slug}}</a>'' ?hello ''dist/blog/hello.html''
       (Map.empty(''contents'' \<mapsto> VString (Content (slug_page ''blog/hello.md'' ''blog/hello''))) ++
        baseRenderContext slug_builder ++
        YamlFrontMatter_AsMap mem_world (FrontMatter (slug_page ''blog/hello.md'' ''blog/hello'')))
       = (None, slug_site @
            [(''dist/blog'', Directory),
             (''dist/blog/hello.html'', Regular ''<a>blog/hello</a><p>post</p>'')])"
    by code_simp
  have named_steps:
    "''blog/named.html'' = convertMarkdownPathToHtmlPath (runtime_GOOS mem_world) ''blog/named.md'' \<and>
     createDistFile mem_world slug_site
       (filepath_Join mem_world [Dist (config slug_builder), ''blog/named.html''])
       = (Inr ''dist/blog/named.html'', ?named) \<and>
     lookUpTemplate mem_world slug_builder ''blog/named.html'' = Inr ''<a>{{post_slug}}</a>'' \<and>
     getFileData mem_world slug_builder ?named ''blog/named.md''
       = Inr (slug_page ''blog/named.md'' ''my-post'')"
    by code_simp
  have named_image:
    "ogImage mem_world slug_builder ?named ''blog/named.md''
       (postSlug (runtime_GOOS mem_world) ''blog/named.html''
          (slug_page ''blog/named.md'' ''my-post''))
       = (Inr (slug_page ''blog/named.md'' ''my-post''), ?named)"
    by code_simp
  have named_render:
    "template_FRender mem_world ''<a>{{post_slug}}</a>'' ?named ''dist/blog/named.html''
       (Map.empty(''contents'' \<mapsto> VString (Content (slug_page ''blog/named.md'' ''my-post''))) ++
        baseRenderContext slug_builder ++
        YamlFrontMatter_AsMap mem_world (FrontMatter (slug_page ''blog/named.md'' ''my-post'')))
       = (None, slug_site @
            [(''dist/blog'', Directory),
             (''dist/blog/named.html'', Regular ''<a>my-post</a><p>post</p>'')])"
    by code_simp
  note hello = renderContent_sets_slug
    [where html = "''blog/hello.html''" and w = mem_world and p = "''blog/hello.md''"
       and fs = slug_site and b = slug_builder and f = "''dist/blog/hello.html''"
       and ?fs1.0 = "?hello" and t = "''<a>{{post_slug}}</a>''"
       and fd = "slug_page ''blog/hello.md'' []" and ?fs2.0 = "?hello"
       and ?fd2.0 = "slug_page ''blog/hello.md'' ''blog/hello''",
     THEN conjunct1, rule_format, OF hello_steps, THEN conjunct2, rule_format, OF hello_image,
     THEN conjunct2]
  note named = renderContent_sets_slug
    [where html = "''blog/named.html''" and w = mem_world and p = "''blog/named.md''"
       and fs = slug_site and b = slug_builder and f = "''dist/blog/named.html''"
       and ?fs1.0 = "?named" and t = "''<a>{{post_slug}}</a>''"
       and fd = "slug_page ''blog/named.md'' ''my-post''" and ?fs2.0 = "?named"
       and ?fd2.0 = "slug_page ''blog/named.md'' ''my-post''",
     THEN conjunct1, rule_format, OF named_steps, THEN conjunct2, rule_format, OF named_image,
     THEN conjunct2]
  have windows: "postSlug Windows
     (convertMarkdownPathToHtmlPath Windows (''blog'' @ [CHR 0x5C] @ ''hello.md''))
     (slug_page (''blog'' @ [CHR 0x5C] @ ''hello.md'') [])
     = slug_page (''blog'' @ [CHR 0x5C] @ ''hello.md'') ''blog/hello''"
    by code_simp
  have kept: "postSlug Unix ''blog/named.html'' (slug_page ''blog/named.md'' ''my-post'')
     = slug_page ''blog/named.md'' ''my-post''"
    by code_simp
  from hello hello_render named named_render windows kept show ?thesis
    by (simp only: simp_thms)
qed

text \<open>
  Claim C8, amended. For each input file \<^verbatim>\<open>renderContent\<close> (1) computes the output path,
  (2) creates the missing destination directories and creates the destination file,
  (3) resolves the template, (4) extracts the document, fills the slug and writes the
  share image, (5) builds the render context, and (6) writes the rendered template into
  the file created in step 2. The first failure ends the call. When template resolution
  or extraction fails, the file system is as step 2 has left it: the destination file has
  been created and nothing has been written to it.
\<close>

theorem renderContent_order:
  assumes "html = convertMarkdownPathToHtmlPath (runtime_GOOS w) p"
    and "dist = filepath_Join w [Dist (config b), html]"
  shows
  "(createDistFile w fs dist = (Inl e, fs1) \<longrightarrow> renderContent w b fs p = (Some e, fs1)) \<and>
   (createDistFile w fs dist = (Inr f, fs1) \<longrightarrow>
      f = dist \<and> (\<exists>fs0. os_Create w fs0 dist = (None, fs1)) \<and>
      (lookUpTemplate w b html = Inl e \<longrightarrow> renderContent w b fs p = (Some e, fs1)) \<and>
      (lookUpTemplate w b html = Inr t \<longrightarrow>
         (getFileData w b fs1 p = Inl e \<longrightarrow> renderContent w b fs p = (Some e, fs1)) \<and>
         (getFileData w b fs1 p = Inr fd \<longrightarrow>
            (ogImage w b fs1 p (postSlug (runtime_GOOS w) html fd) = (Inl e, fs2) \<longrightarrow>
               renderContent w b fs p = (Some e, fs2)) \<and>
            (ogImage w b fs1 p (postSlug (runtime_GOOS w) html fd) = (Inr fd2, fs2) \<longrightarrow>
               getRenderContext w b fd2 = Inr ctx \<longrightarrow>
               renderContent w b fs p = template_FRender w t fs2 f ctx))))"
proof -
  have created: "f = dist \<and> (\<exists>fs0. os_Create w fs0 dist = (None, fs1))"
    if "createDistFile w fs dist = (Inr f, fs1)"
    using that
    by (auto simp: createDistFile_def Let_def split: sum.splits prod.splits option.splits if_splits)
  show ?thesis
    using assms created
    by (auto simp: renderContent_def Let_def)
qed

theorem renderContent_order_witness:
  "createDistFile mem_world bare_site ''dist/index.html''
     = (Inr ''dist/index.html'', bare_site @ [(''dist/index.html'', Regular [])]) \<and>
   lookUpTemplate mem_world (engine_builder [(''layouts/default.html'', ''<html>'')]) ''index.html''
     = Inr ''<html>'' \<and>
   renderContent mem_world (engine_builder [(''layouts/default.html'', ''<html>'')])
       bare_site ''index.md''
     = (None, bare_site @ [(''dist/index.html'', Regular ''<html><p>hello</p>'')]) \<and>
   renderContent mem_world (engine_builder []) bare_site ''index.md''
     = (Some TemplateNotFound, bare_site @ [(''dist/index.html'', Regular [])])"
proof -
  let ?b = "engine_builder [(''layouts/default.html'', ''<html>'')]"
  let ?fs1 = "bare_site @ [(''dist/index.html'', Regular [])]"
  let ?fd = "\<lparr>Path = ''index.md'', Content = ''<p>hello</p>'', FrontMatter = zeroYamlFrontMatter\<rparr>"
  let ?fd2 = "?fd\<lparr>FrontMatter := zeroYamlFrontMatter\<lparr>PostSlug := ''index''\<rparr>\<rparr>"
  let ?ctx = "projr (getRenderContext mem_world ?b ?fd2)"
  have html: "''index.html'' = convertMarkdownPathToHtmlPath (runtime_GOOS mem_world) ''index.md''"
    by code_simp
  have dist: "''dist/index.html'' = filepath_Join mem_world [Dist (config ?b), ''index.html'']"
    by code_simp
  have dist0: "''dist/index.html''
                 = filepath_Join mem_world [Dist (config (engine_builder [])), ''index.html'']"
    by code_simp
  have h1: "createDistFile mem_world bare_site ''dist/index.html''
              = (Inr ''dist/index.html'', ?fs1)"
    by code_simp
  have h2: "lookUpTemplate mem_world ?b ''index.html'' = Inr ''<html>''" by code_simp
  have h3: "getFileData mem_world ?b ?fs1 ''index.md'' = Inr ?fd" by code_simp
  have h4: "ogImage mem_world ?b ?fs1 ''index.md''
              (postSlug (runtime_GOOS mem_world) ''index.html'' ?fd) = (Inr ?fd2, ?fs1)"
    by code_simp
  have h5: "getRenderContext mem_world ?b ?fd2 = Inr ?ctx"
    by (simp add: getRenderContext_def Let_def)
  have r: "template_FRender mem_world ''<html>'' ?fs1 ''dist/index.html'' ?ctx
             = (None, bare_site @ [(''dist/index.html'', Regular ''<html><p>hello</p>'')])"
    by code_simp
  have n: "lookUpTemplate mem_world (engine_builder []) ''index.html'' = Inl TemplateNotFound"
    by code_simp
  note t = renderContent_order [OF html dist, THEN conjunct2, rule_format, OF h1,
    THEN conjunct2, THEN conjunct2, THEN conjunct2, rule_format, OF h2,
    THEN conjunct2, rule_format, OF h3, THEN conjunct2, rule_format, OF h4 h5]
  note u = renderContent_order [OF html dist0, THEN conjunct2, rule_format, OF h1,
    THEN conjunct2, THEN conjunct2, THEN conjunct1, rule_format, OF n]
  from t r h1 h2 u show ?thesis by simp
qed

text \<open>
  The claim as it was stated fails: the destination file is created before the template
  is resolved and before the document is extracted. A page with no template, and a page
  whose source cannot be read, each leave an empty destination file behind.
\<close>

theorem renderContent_order_counterexample:
  "os_Stat mem_world bare_site ''dist/index.html'' = NotExist \<and>
   lookUpTemplate mem_world (NewBuilder site_config) ''index.html'' = Inl TemplateNotFound \<and>
   renderContent mem_world (NewBuilder site_config) bare_site ''index.md''
     = (Some TemplateNotFound, bare_site @ [(''dist/index.html'', Regular [])]) \<and>
   os_Stat mem_world (bare_site @ [(''dist/index.html'', Regular [])]) ''dist/index.html''
     = FileInfo False \<and>
   os_Stat mem_world bare_site ''dist/gone.html'' = NotExist \<and>
   getFileData mem_world (engine_builder [(''layouts/default.html'', ''<html>'')])
       (bare_site @ [(''dist/gone.html'', Regular [])]) ''gone.md''
     = Inl (OSError ''no such file or directory'') \<and>
   renderContent mem_world (engine_builder [(''layouts/default.html'', ''<html>'')])
       bare_site ''gone.md''
     = (Some (OSError ''no such file or directory''),
        bare_site @ [(''dist/gone.html'', Regular [])]) \<and>
   os_Stat mem_world (bare_site @ [(''dist/gone.html'', Regular [])]) ''dist/gone.html''
     = FileInfo False"
  by code_simp

section \<open>Static files\<close>

text \<open>
  The bound on the depth of \<^verbatim>\<open>copyStatic\<close> does not show in a result: a larger bound gives
  the same one.
\<close>

lemma copyStatic_more_fuel:
  shows "copyStatic n w fs src dist = Some r \<Longrightarrow> copyStatic (Suc n) w fs src dist = Some r"
    and "copyStatic_loop n w fs src dist files = Some r \<Longrightarrow>
           copyStatic_loop (Suc n) w fs src dist files = Some r"
proof (induction n w fs src dist and n w fs src dist files arbitrary: r and r
    rule: copyStatic_copyStatic_loop.induct)
  case (1 w fs src dist)
  then show ?case by simp
next
  case (2 n w fs src dist)
  from "2.prems" "2.IH" show ?case
    by (cases r) (auto split: sum.splits bool.splits prod.splits option.splits)
next
  case (3 n w fs src dist)
  then show ?case by simp
next
  case (4 n w fs src dist entry files)
  let ?srcFile = "filepath_Join w [src, fst entry]"
  let ?distFile = "filepath_Join w [dist, fst entry]"
  note a = "4.prems"
  show ?case
  proof (cases "snd entry")
    case False
    obtain m fs1 where cf: "copyFile w fs ?srcFile ?distFile = (m, fs1)"
      by (cases "copyFile w fs ?srcFile ?distFile")
    show ?thesis
    proof (cases m)
      case (Some e)
      with a False cf show ?thesis by (auto simp: Let_def)
    next
      case None
      with a False cf have l: "copyStatic_loop n w fs1 src dist files = Some r"
        by (simp add: Let_def)
      have "copyStatic_loop (Suc n) w fs1 src dist files = Some r"
        by (rule "4.IH"(2) [OF refl refl _ refl refl l]) (simp add: False cf None)
      with False cf None show ?thesis by (simp add: Let_def)
    qed
  next
    case True
    show ?thesis
    proof (cases "copyStatic n w fs ?srcFile ?distFile")
      case None
      with a True show ?thesis by (simp add: Let_def)
    next
      case (Some x)
      obtain m fs1 where x: "x = (m, fs1)" by (cases x)
      from "4.IH"(1) [OF refl refl True] Some x
      have up: "copyStatic (Suc n) w fs ?srcFile ?distFile = Some (m, fs1)" by simp
      show ?thesis
      proof (cases m)
        case e: (Some e)
        with a True Some x have "r = (Some e, fs1)" by (auto simp: Let_def)
        with up e True show ?thesis by (simp add: Let_def del: copyStatic.simps)
      next
        case None
        with a True Some x have l: "copyStatic_loop n w fs1 src dist files = Some r"
          by (simp add: Let_def)
        have "copyStatic_loop (Suc n) w fs1 src dist files = Some r"
          by (rule "4.IH"(2) [OF refl refl _ refl refl l]) (simp add: True Some x None)
        with up None True show ?thesis by (simp add: Let_def del: copyStatic.simps)
      qed
    qed
  qed
qed




section \<open>The goroutines: what every step keeps\<close>

lemma step_length: "step w b s s' \<Longrightarrow> length (tasks s') = length (tasks s)"
  by (induction rule: step.induct) auto

lemma step_paths:
  "step w b s s' \<Longrightarrow> map task_path (tasks s') = map task_path (tasks s)"
  by (induction rule: step.induct) (auto simp: map_update list_update_same_conv)

lemma step_failure_kept:
  "step w b s s' \<Longrightarrow> j < length (tasks s) \<Longrightarrow> failure (tasks s ! j) = Some e \<Longrightarrow>
     failure (tasks s' ! j) = Some e"
proof (induction rule: step.induct)
  case (render_ok s i path fs')
  then show ?case by (cases "j = i") auto
next
  case (render_err s i path e' fs')
  then show ?case by (cases "j = i") auto
next
  case (receive s i path e')
  then show ?case by (cases "j = i") auto
next
  case (wg_Done s i path e')
  then show ?case by (cases "j = i") auto
qed auto

lemma step_finished_kept:
  "step w b s s' \<Longrightarrow> j < length (tasks s) \<Longrightarrow> tasks s ! j = Finished p r \<Longrightarrow>
     tasks s' ! j = Finished p r"
proof (induction rule: step.induct)
  case (render_ok s i path fs')
  then show ?case by (cases "j = i") auto
next
  case (render_err s i path e' fs')
  then show ?case by (cases "j = i") auto
next
  case (receive s i path e')
  then show ?case by (cases "j = i") auto
next
  case (wg_Done s i path e')
  then show ?case by (cases "j = i") auto
qed auto

lemma step_main_kept:
  "step w b s s' \<Longrightarrow> main s = Returned r \<Longrightarrow> main s' = Returned r"
  by (induction rule: step.induct) auto

lemma step_closed_kept: "step w b s s' \<Longrightarrow> closed s \<Longrightarrow> closed s'"
  by (induction rule: step.induct) auto

lemma pool_inv_start: "pool_inv (Run_start fs files)"
  by (simp add: pool_inv_def Run_start_def)

lemma step_inv_closed:
  assumes "step w b s s'" and "pool_inv s" and "closed s'" and "i < length (tasks s')"
  shows "\<exists>p r. tasks s' ! i = Finished p r"
  using assms
proof (induction rule: step.induct)
  case (close_errCh s)
  then show ?case by (simp add: list_all_length)
next
  case (render_ok s j path fs')
  then show ?case by (cases "i = j") (auto simp: pool_inv_def)
next
  case (render_err s j path e fs')
  then have "\<exists>p r. tasks s ! j = Finished p r" by (auto simp: pool_inv_def)
  with render_err show ?case by simp
next
  case (receive s j path e)
  then have "\<exists>p r. tasks s ! j = Finished p r" by (auto simp: pool_inv_def)
  with receive show ?case by simp
next
  case (wg_Done s j path e)
  then show ?case by (cases "i = j") (auto simp: pool_inv_def)
qed (auto simp: pool_inv_def)

lemma step_inv_ranging:
  assumes "step w b s s'" and "pool_inv s" and "main s' = Ranging" and "i < length (tasks s')"
  shows "failure (tasks s' ! i) = None"
  using assms
proof (induction rule: step.induct)
  case (render_ok s j path fs')
  then show ?case by (cases "i = j") (auto simp: pool_inv_def)
next
  case (render_err s j path e fs')
  then show ?case by (cases "i = j") (auto simp: pool_inv_def)
next
  case (wg_Done s j path e)
  then have "failure (tasks s ! j) = None" by (auto simp: pool_inv_def)
  with wg_Done show ?case by simp
qed (auto simp: pool_inv_def)

lemma step_inv_nil:
  assumes "step w b s s'" and "pool_inv s" and "main s' = Returned None"
  shows "closed s' \<and> (\<forall>i < length (tasks s'). \<exists>p. tasks s' ! i = Finished p None)"
  using assms
proof (induction rule: step.induct)
  case (return_nil s)
  have "\<exists>p. tasks s ! i = Finished p None" if "i < length (tasks s)" for i
  proof -
    from return_nil that obtain p r where f: "tasks s ! i = Finished p r"
      by (auto simp: pool_inv_def)
    from return_nil that have "failure (tasks s ! i) = None" by (auto simp: pool_inv_def)
    with f show ?thesis by simp
  qed
  with return_nil show ?case by simp
next
  case (render_ok s j path fs')
  then have "\<exists>p. tasks s ! j = Finished p None" by (auto simp: pool_inv_def)
  with render_ok show ?case by simp
next
  case (render_err s j path e fs')
  then have "\<exists>p. tasks s ! j = Finished p None" by (auto simp: pool_inv_def)
  with render_err show ?case by simp
next
  case (wg_Done s j path e)
  then have "\<exists>p. tasks s ! j = Finished p None" by (auto simp: pool_inv_def)
  with wg_Done show ?case by simp
qed (auto simp: pool_inv_def)

lemma step_inv_err:
  assumes "step w b s s'" and "pool_inv s" and "main s' = Returned (Some e)"
  shows "\<exists>i < length (tasks s'). failure (tasks s' ! i) = Some e"
proof (cases "main s = Returned (Some e)")
  case True
  with assms(2) obtain j where j: "j < length (tasks s)" "failure (tasks s ! j) = Some e"
    by (auto simp: pool_inv_def)
  from step_failure_kept [OF assms(1) j] step_length [OF assms(1)] j(1)
  show ?thesis by auto
next
  case False
  with assms(1,3) show ?thesis
  proof (induction rule: step.induct)
    case (receive s i path e')
    then show ?case by (intro exI [of _ i]) simp
  qed auto
qed

lemma step_inv: "step w b s s' \<Longrightarrow> pool_inv s \<Longrightarrow> pool_inv s'"
  using step_inv_closed [of w b s s'] step_inv_ranging [of w b s s']
    step_inv_nil [of w b s s'] step_inv_err [of w b s s']
  unfolding pool_inv_def [of s'] by blast


lemma steps_left_update:
  "i < length ts \<Longrightarrow>
     sum_list (map steps_left (ts[i := t])) + steps_left (ts ! i)
       = sum_list (map steps_left ts) + steps_left t"
proof (induction ts arbitrary: i)
  case Nil
  then show ?case by simp
next
  case (Cons a ts)
  then show ?case by (cases i) auto
qed

lemma step_measure: "step w b s s' \<Longrightarrow> run_measure s' < run_measure s"
proof (induction rule: step.induct)
  case (render_ok s i path fs')
  with steps_left_update [of i "tasks s" "Finished path None"]
  show ?case by (simp add: run_measure_def)
next
  case (render_err s i path e fs')
  with steps_left_update [of i "tasks s" "Sending path e"]
  show ?case by (simp add: run_measure_def)
next
  case (render_panic s i path fs')
  then show ?case by (simp add: run_measure_def)
next
  case (receive s i path e)
  with steps_left_update [of i "tasks s" "Sent path e"]
  show ?case by (simp add: run_measure_def)
next
  case (wg_Done s i path e)
  with steps_left_update [of i "tasks s" "Finished path (Some e)"]
  show ?case by (simp add: run_measure_def)
next
  case (close_errCh s)
  then show ?case by (simp add: run_measure_def)
next
  case (return_nil s)
  then show ?case by (simp add: run_measure_def)
qed

lemma step_progress:
  assumes "main s = Ranging" and "\<not> crashed s"
  shows "\<exists>s'. step w b s s'"
proof (cases "list_all (\<lambda>t. \<exists>p r. t = Finished p r) (tasks s)")
  case True
  show ?thesis
  proof (cases "closed s")
    case True
    with assms show ?thesis by (blast intro: step.return_nil)
  next
    case False
    with assms \<open>list_all _ _\<close> show ?thesis by (blast intro: step.close_errCh)
  qed
next
  case False
  then obtain i where i: "i < length (tasks s)" and nf: "\<forall>p r. tasks s ! i \<noteq> Finished p r"
    by (auto simp: list_all_length)
  show ?thesis
  proof (cases "tasks s ! i")
    case (Todo path)
    obtain r fs' where rc: "renderContent w b (pfs s) path = (r, fs')"
      by (cases "renderContent w b (pfs s) path")
    show ?thesis
    proof (cases r)
      case None
      with assms i Todo rc show ?thesis by (blast intro: step.render_ok)
    next
      case (Some e)
      show ?thesis
      proof (cases "e = NilPanic")
        case True
        with assms i Todo rc Some show ?thesis by (blast intro: step.render_panic)
      next
        case False
        with assms i Todo rc Some show ?thesis by (blast intro: step.render_err)
      qed
    qed
  next
    case (Sending path e)
    with assms i show ?thesis by (blast intro: step.receive)
  next
    case (Sent path e)
    with assms i show ?thesis by (blast intro: step.wg_Done)
  next
    case (Finished path r)
    with nf show ?thesis by simp
  qed
qed

lemma Run_early_state:
  "Run n w b fs s \<Longrightarrow> Run_setup n w b fs = Some (Inl e, fs1) \<Longrightarrow> s = Run_failed fs1 e"
  by (induction rule: Run.induct) auto

lemma Run_inv:
  "Run n w b fs s \<Longrightarrow> Run_setup n w b fs = Some (Inr (b1, files), fs1) \<Longrightarrow>
     pool_inv s \<and> map task_path (tasks s) = files"
proof (induction rule: Run.induct)
  case (Run_early e fs1)
  then show ?case by simp
next
  case (Run_go b1 markdownFiles fs1)
  then show ?case by (simp add: pool_inv_start) (simp add: Run_start_def comp_def)
next
  case (Run_step b1' markdownFiles fs1' s s')
  then show ?case using step_inv step_paths by fastforce
qed

section \<open>Runs of the coordinator\<close>

lemma all_update: "\<forall>t \<in> set xs. P t \<Longrightarrow> P y \<Longrightarrow> \<forall>t \<in> set (xs[i := y]). P t"
  using set_update_subset_insert [of xs i y] by auto

lemma step_rendered:
  "step w b s s' \<Longrightarrow> \<forall>t \<in> set (tasks s). rendered w b t \<Longrightarrow>
     \<forall>t \<in> set (tasks s'). rendered w b t"
proof (induction rule: step.induct)
  case (render_ok s i path fs')
  from render_ok.hyps(4) have "rendered w b (Finished path None)"
    unfolding rendered.simps by blast
  from all_update [OF render_ok.prems this, of i] show ?case by simp
next
  case (render_err s i path e fs')
  from render_err.hyps(4) have "rendered w b (Sending path e)"
    unfolding rendered.simps by blast
  from all_update [OF render_err.prems this, of i] show ?case by simp
next
  case (render_panic s i path fs')
  then show ?case by simp
next
  case (receive s i path e)
  from receive.hyps(3,4) have "Sending path e \<in> set (tasks s)" by (metis nth_mem)
  with receive.prems have "rendered w b (Sending path e)" by blast
  then have "rendered w b (Sent path e)" by simp
  from all_update [OF receive.prems this, of i] show ?case by simp
next
  case (wg_Done s i path e)
  from wg_Done.hyps(2,3) have "Sent path e \<in> set (tasks s)" by (metis nth_mem)
  with wg_Done.prems have "rendered w b (Sent path e)" by blast
  then have "rendered w b (Finished path (Some e))" by simp
  from all_update [OF wg_Done.prems this, of i] show ?case by simp
next
  case (close_errCh s)
  then show ?case by simp
next
  case (return_nil s)
  then show ?case by simp
qed

lemma Run_rendered:
  "Run n w b fs s \<Longrightarrow> Run_setup n w b fs = Some (Inr (b1, files), fs1) \<Longrightarrow>
     \<forall>t \<in> set (tasks s). rendered w b1 t"
proof (induction rule: Run.induct)
  case (Run_early e fs1)
  then show ?case by simp
next
  case (Run_go b1 markdownFiles fs1)
  then show ?case by (auto simp: Run_start_def)
next
  case (Run_step b1' markdownFiles fs1' s s')
  from Run_step.IH [OF Run_step.prems] Run_step.hyps(1) Run_step.prems
  have "\<forall>t \<in> set (tasks s). rendered w b1 t" by simp
  moreover from Run_step.hyps(1) Run_step.prems have "b1' = b1" by simp
  ultimately show ?case using step_rendered [of w b1 s s'] Run_step.hyps(3) by blast
qed

lemma Run_setup_more_fuel:
  "Run_setup n w b fs = Some r \<Longrightarrow> Run_setup (Suc n) w b fs = Some r"
proof -
  assume a: "Run_setup n w b fs = Some r"
  obtain m fs1 where cd: "createDistDir w fs (Dist (config b)) True = (m, fs1)"
    by (cases "createDistDir w fs (Dist (config b)) True")
  show ?thesis
  proof (cases m)
    case (Some e)
    with a cd show ?thesis by (simp add: Run_setup_def)
  next
    case None
    with a cd obtain x where
      x: "copyStatic n w fs1 (Static (config b)) (Dist (config b)) = Some x"
      by (auto simp: Run_setup_def split: option.splits)
    from copyStatic_more_fuel(1) [OF x]
    have "copyStatic (Suc n) w fs1 (Static (config b)) (Dist (config b)) = Some x" .
    with a cd None x show ?thesis by (simp add: Run_setup_def del: copyStatic.simps)
  qed
qed

lemma Run_more_fuel: "Run n w b fs s \<Longrightarrow> Run (Suc n) w b fs s"
proof (induction rule: Run.induct)
  case (Run_early e fs1)
  from Run.Run_early [OF Run_setup_more_fuel [OF Run_early.hyps]] show ?case .
next
  case (Run_go b1 markdownFiles fs1)
  from Run.Run_go [OF Run_setup_more_fuel [OF Run_go.hyps]] show ?case .
next
  case (Run_step b1 markdownFiles fs1 s s')
  from Run.Run_step [OF Run_setup_more_fuel [OF Run_step.hyps(1)] Run_step.IH Run_step.hyps(3)]
  show ?case .
qed

lemma Run_discover_Inr:
  "Run_discover w b fs = Inr (b1, files) \<longleftrightarrow>
     (\<exists>found templateFiles b'.
        getFilePathsByExt w fs ''.'' ''.md'' = Inr found \<and>
        getFilePathsByExt w fs (Layouts (config b)) ''.html'' = Inr templateFiles \<and>
        initTemplateMap w b fs templateFiles = Inr b' \<and>
        files = purgeIgnoreFiles w b found \<and>
        b1 = b'\<lparr>gm := Some (initGoldmark b'), baseRenderContext := Config_AsMap w (config b')\<rparr>)"
  by (auto simp: Run_discover_def Let_def split: sum.splits)

lemma Run_setup_Inr:
  "Run_setup n w b fs = Some (Inr (b1, files), fs2) \<longleftrightarrow>
     (\<exists>fs1. createDistDir w fs (Dist (config b)) True = (None, fs1) \<and>
        copyStatic n w fs1 (Static (config b)) (Dist (config b)) = Some (None, fs2) \<and>
        Run_discover w b fs2 = Inr (b1, files))"
  by (auto simp: Run_setup_def split: prod.splits option.splits sum.splits)

lemma Run_cases:
  "Run n w b fs s \<Longrightarrow>
     (\<exists>e fs1. Run_setup n w b fs = Some (Inl e, fs1) \<and> s = Run_failed fs1 e) \<or>
     (\<exists>b1 files fs1. Run_setup n w b fs = Some (Inr (b1, files), fs1))"
  by (induction rule: Run.induct) auto

lemma Run_finished_nil:
  assumes "Run n w b fs s" and "Run_setup n w b fs = Some (Inr (b1, files), fs1)"
    and "main s = Returned None"
  shows "tasks s = map (\<lambda>p. Finished p None) files"
proof -
  from Run_inv [OF assms(1,2)] have inv: "pool_inv s" and paths: "map task_path (tasks s) = files"
    by simp_all
  from inv assms(3) have fin: "\<forall>i < length (tasks s). \<exists>p. tasks s ! i = Finished p None"
    by (simp add: pool_inv_def)
  show ?thesis
  proof (rule nth_equalityI)
    from paths show "length (tasks s) = length (map (\<lambda>p. Finished p None) files)"
      by (metis length_map)
  next
    fix i assume i: "i < length (tasks s)"
    with fin obtain p where p: "tasks s ! i = Finished p None" by blast
    from paths i have "task_path (tasks s ! i) = files ! i" by (metis nth_map)
    with p have "p = files ! i" by simp
    moreover from paths i have "i < length files" by (metis length_map)
    ultimately show "tasks s ! i = map (\<lambda>p. Finished p None) files ! i" using p by simp
  qed
qed

lemma Run_discover_Inl:
  "Run_discover w b fs = Inl e \<longleftrightarrow>
     getFilePathsByExt w fs ''.'' ''.md'' = Inl e \<or>
     (\<exists>found. getFilePathsByExt w fs ''.'' ''.md'' = Inr found \<and>
        (getFilePathsByExt w fs (Layouts (config b)) ''.html'' = Inl e \<or>
         (\<exists>templateFiles.
            getFilePathsByExt w fs (Layouts (config b)) ''.html'' = Inr templateFiles \<and>
            initTemplateMap w b fs templateFiles = Inl e)))"
  by (auto simp: Run_discover_def Let_def split: sum.splits)

lemma Run_setup_Inl:
  "Run_setup n w b fs = Some (Inl e, fs') \<longleftrightarrow>
     createDistDir w fs (Dist (config b)) True = (Some e, fs') \<or>
     (\<exists>fs1. createDistDir w fs (Dist (config b)) True = (None, fs1) \<and>
        (copyStatic n w fs1 (Static (config b)) (Dist (config b)) = Some (Some e, fs') \<or>
         copyStatic n w fs1 (Static (config b)) (Dist (config b)) = Some (None, fs') \<and>
         Run_discover w b fs' = Inl e))"
  by (auto simp: Run_setup_def split: prod.splits option.splits sum.splits)

lemma Run_setup_evaluated:
  assumes "map_option (\<lambda>(r, fs1). (map_sum id snd r, fs1)) (Run_setup n w b fs)
             = Some (Inr files, fs1)"
  shows "Run_setup n w b fs = Some (Inr (setup_builder n w b fs, files), fs1)"
  using assms
  by (auto simp: setup_builder_def split: option.splits sum.splits prod.splits)

text \<open>
  Once \<^verbatim>\<open>Run\<close> has returned, nothing receives from the channel: a goroutine that is still
  sending stays so.
\<close>

lemma step_blocked:
  "step w b s s' \<Longrightarrow> main s \<noteq> Ranging \<Longrightarrow> i < length (tasks s) \<Longrightarrow>
     tasks s ! i = Sending p e \<Longrightarrow> tasks s' ! i = Sending p e"
proof (induction rule: step.induct)
  case (render_ok s j path fs')
  then show ?case by (cases "i = j") auto
next
  case (render_err s j path e' fs')
  then show ?case by (cases "i = j") auto
next
  case (wg_Done s j path e')
  then show ?case by (cases "i = j") auto
qed auto

lemma Run_setup_failed_evaluated:
  assumes "map_option (\<lambda>(r, fs1). (map_sum id snd r, fs1)) (Run_setup n w b fs)
             = Some (Inl e, fs1)"
  shows "Run_setup n w b fs = Some (Inl e, fs1)"
proof -
  from assms obtain r where r: "Run_setup n w b fs = Some (r, fs1)" "map_sum id snd r = Inl e"
    by (auto split: prod.splits)
  from r(2) have "r = Inl e" by (cases r) auto
  with r(1) show ?thesis by simp
qed

lemma unlaid_setup:
  "Run_setup 1 mem_world (NewBuilder site_config :: string Builder) unlaid_site
     = Some (Inl (OSError ''no such file or directory''), unlaid_site @ [(''dist'', Directory)])"
proof -
  have "map_option (\<lambda>(r, fs1). (map_sum id snd r, fs1))
          (Run_setup 1 mem_world (NewBuilder site_config :: string Builder) unlaid_site)
          = Some (Inl (OSError ''no such file or directory''),
                  unlaid_site @ [(''dist'', Directory)])"
    by code_simp
  then show ?thesis by (rule Run_setup_failed_evaluated)
qed

lemma no_static_setup:
  "Run_setup 1 mem_world (NewBuilder site_config) no_static_site
     = Some (Inr (setup_builder 1 mem_world (NewBuilder site_config) no_static_site, [''index.md'']),
             no_static_site @ [(''dist'', Directory)])"
proof -
  have "map_option (\<lambda>(r, fs1). (map_sum id snd r, fs1))
          (Run_setup 1 mem_world (NewBuilder site_config :: string Builder) no_static_site)
          = Some (Inr [''index.md''], no_static_site @ [(''dist'', Directory)])"
    by code_simp
  then show ?thesis by (rule Run_setup_evaluated)
qed

lemma two_site_setup:
  "Run_setup 1 mem_world (NewBuilder site_config) two_site
     = Some (Inr (setup_builder 1 mem_world (NewBuilder site_config) two_site, [''a.md'', ''b.md'']),
             two_site @ [(''dist'', Directory)])"
proof -
  have "map_option (\<lambda>(r, fs1). (map_sum id snd r, fs1))
          (Run_setup 1 mem_world (NewBuilder site_config :: string Builder) two_site)
          = Some (Inr [''a.md'', ''b.md''], two_site @ [(''dist'', Directory)])"
    by code_simp
  then show ?thesis by (rule Run_setup_evaluated)
qed

lemma no_static_run: "Run 1 mem_world (NewBuilder site_config) no_static_site built_pool"
proof -
  let ?b0 = "NewBuilder site_config :: string Builder"
  let ?B = "setup_builder 1 mem_world ?b0 no_static_site"
  let ?fs1 = "no_static_site @ [(''dist'', Directory)]"
  let ?fs2 = "no_static_site @
             [(''dist'', Directory), (''dist/index.html'', Regular ''<html><p>hello</p>'')]"
  let ?s1 = "\<lparr>pfs = ?fs2, tasks = [Finished ''index.md'' None], closed = False, main = Ranging,
      crashed = False\<rparr>"
  note ok = no_static_setup
  have r0: "Run 1 mem_world ?b0 no_static_site (Run_start ?fs1 [''index.md''])"
    by (rule Run_go [OF ok])
  have rc: "renderContent mem_world ?B ?fs1 ''index.md'' = (None, ?fs2)" by code_simp
  have "step mem_world ?B (Run_start ?fs1 [''index.md'']) ?s1"
    using step.render_ok [where s = "Run_start ?fs1 [''index.md'']" and i = 0
        and path = "''index.md''" and w = mem_world and b = ?B and fs' = ?fs2] rc
    by (simp add: Run_start_def)
  from Run_step [OF ok r0 this] have r1: "Run 1 mem_world ?b0 no_static_site ?s1" .
  have "step mem_world ?B ?s1 (?s1\<lparr>closed := True\<rparr>)"
    by (rule step.close_errCh) simp_all
  from Run_step [OF ok r1 this] have r2: "Run 1 mem_world ?b0 no_static_site (?s1\<lparr>closed := True\<rparr>)" .
  have "step mem_world ?B (?s1\<lparr>closed := True\<rparr>) (?s1\<lparr>closed := True, main := Returned None\<rparr>)"
    using step.return_nil [where s = "?s1\<lparr>closed := True\<rparr>" and w = mem_world and b = ?B]
    by simp
  from Run_step [OF ok r2 this] show ?thesis by (simp add: built_pool_def)
qed

lemma two_site_sending: "Run 1 mem_world (NewBuilder site_config) two_site sending_pool"
proof -
  let ?b0 = "NewBuilder site_config :: string Builder"
  let ?B = "setup_builder 1 mem_world ?b0 two_site"
  let ?fs1 = "two_site @ [(''dist'', Directory)]"
  let ?fs2 = "two_site @ [(''dist'', Directory), (''dist/a.html'', Regular [])]"
  note ok = two_site_setup
  have r0: "Run 1 mem_world ?b0 two_site (Run_start ?fs1 [''a.md'', ''b.md''])"
    by (rule Run_go [OF ok])
  have rc: "renderContent mem_world ?B ?fs1 ''a.md'' = (Some TemplateNotFound, ?fs2)"
    by code_simp
  have "step mem_world ?B (Run_start ?fs1 [''a.md'', ''b.md'']) sending_pool"
    using step.render_err [where s = "Run_start ?fs1 [''a.md'', ''b.md'']" and i = 0
        and path = "''a.md''" and w = mem_world and b = ?B and fs' = ?fs2
        and e = TemplateNotFound] rc
    by (simp add: Run_start_def sending_pool_def)
  from Run_step [OF ok r0 this] show ?thesis .
qed

lemma returned_pool_eq:
  "returned_pool =
     sending_pool\<lparr>tasks := (tasks sending_pool)[0 := Sent ''a.md'' TemplateNotFound],
                  main := Returned (Some TemplateNotFound)\<rparr>"
  by (simp add: returned_pool_def sending_pool_def)

text \<open>
  What \<^verbatim>\<open>Run\<close> returns when it returns. In every state that a run reaches: if \<^verbatim>\<open>Run\<close> has
  returned, it has returned nil exactly when every phase has succeeded (the destination
  directory, the static copy, the discovery of the Markdown files and of the layout
  files, the loading of the templates, and the render of every file that discovery
  kept); an error that \<^verbatim>\<open>Run\<close> has returned is the error of a phase before the goroutines
  or of one of the renders; an error of a phase before the goroutines, other than the
  panic of \<^verbatim>\<open>existDir\<close>, is the value \<^verbatim>\<open>Run\<close> returns; \<^verbatim>\<open>Run\<close> never returns nil once a
  render has failed; while \<^verbatim>\<open>Run\<close> is in its loop and the process has not panicked, some
  step is possible that lowers \<open>run_measure\<close>; and the state of every goroutine records
  what a call of \<^verbatim>\<open>renderContent\<close> on its file has returned.
\<close>

lemma Run_returns:
  assumes "Run n w b fs s"
  shows
  "(main s = Returned r \<longrightarrow>
      (r = None \<longleftrightarrow>
         (\<exists>fs1 fs2 found templateFiles b'.
            createDistDir w fs (Dist (config b)) True = (None, fs1) \<and>
            copyStatic n w fs1 (Static (config b)) (Dist (config b)) = Some (None, fs2) \<and>
            getFilePathsByExt w fs2 ''.'' ''.md'' = Inr found \<and>
            getFilePathsByExt w fs2 (Layouts (config b)) ''.html'' = Inr templateFiles \<and>
            initTemplateMap w b fs2 templateFiles = Inr b' \<and>
            tasks s = map (\<lambda>p. Finished p None) (purgeIgnoreFiles w b found)))) \<and>
   (main s = Returned (Some e) \<longrightarrow>
      Run_setup n w b fs = Some (Inl e, pfs s) \<or>
      (\<exists>i < length (tasks s). failure (tasks s ! i) = Some e)) \<and>
   ((createDistDir w fs (Dist (config b)) True = (Some e, fs') \<or>
     (\<exists>fs1. createDistDir w fs (Dist (config b)) True = (None, fs1) \<and>
        (copyStatic n w fs1 (Static (config b)) (Dist (config b)) = Some (Some e, fs') \<or>
         copyStatic n w fs1 (Static (config b)) (Dist (config b)) = Some (None, fs') \<and>
         (getFilePathsByExt w fs' ''.'' ''.md'' = Inl e \<or>
          (\<exists>found. getFilePathsByExt w fs' ''.'' ''.md'' = Inr found \<and>
             (getFilePathsByExt w fs' (Layouts (config b)) ''.html'' = Inl e \<or>
              (\<exists>templateFiles.
                 getFilePathsByExt w fs' (Layouts (config b)) ''.html'' = Inr templateFiles \<and>
                 initTemplateMap w b fs' templateFiles = Inl e)))))))
    \<and> e \<noteq> NilPanic \<longrightarrow> main s = Returned (Some e)) \<and>
   (i < length (tasks s) \<and> (tasks s ! i = Sending p e \<or> failure (tasks s ! i) = Some e) \<longrightarrow>
      main s \<noteq> Returned None) \<and>
   (main s = Ranging \<and> \<not> crashed s \<longrightarrow>
      (\<exists>s'. Run n w b fs s' \<and> run_measure s' < run_measure s)) \<and>
   (Run_setup n w b fs = Some (Inr (b1, files), fs1) \<and> t \<in> set (tasks s) \<longrightarrow>
      rendered w b1 t)"
proof (intro conjI impI)
  assume ret: "main s = Returned r"
  show "r = None \<longleftrightarrow>
         (\<exists>fs1 fs2 found templateFiles b'.
            createDistDir w fs (Dist (config b)) True = (None, fs1) \<and>
            copyStatic n w fs1 (Static (config b)) (Dist (config b)) = Some (None, fs2) \<and>
            getFilePathsByExt w fs2 ''.'' ''.md'' = Inr found \<and>
            getFilePathsByExt w fs2 (Layouts (config b)) ''.html'' = Inr templateFiles \<and>
            initTemplateMap w b fs2 templateFiles = Inr b' \<and>
            tasks s = map (\<lambda>p. Finished p None) (purgeIgnoreFiles w b found))"
    (is "_ \<longleftrightarrow> ?phases")
  proof
    assume nil: "r = None"
    from Run_cases [OF assms] show ?phases
    proof (elim disjE exE conjE)
      fix e fs1 assume "Run_setup n w b fs = Some (Inl e, fs1)" "s = Run_failed fs1 e"
      with ret nil show ?thesis by (simp add: Run_failed_def split: if_splits)
    next
      fix b1 files fs2 assume ok: "Run_setup n w b fs = Some (Inr (b1, files), fs2)"
      from Run_finished_nil [OF assms ok] ret nil
      have t: "tasks s = map (\<lambda>p. Finished p None) files" by simp
      from ok obtain fs1 where
        "createDistDir w fs (Dist (config b)) True = (None, fs1)"
        "copyStatic n w fs1 (Static (config b)) (Dist (config b)) = Some (None, fs2)"
        "Run_discover w b fs2 = Inr (b1, files)"
        unfolding Run_setup_Inr by blast
      with t show ?thesis unfolding Run_discover_Inr by blast
    qed
  next
    assume ?phases
    then obtain fs1 fs2 found templateFiles b' where
      ph: "createDistDir w fs (Dist (config b)) True = (None, fs1)"
          "copyStatic n w fs1 (Static (config b)) (Dist (config b)) = Some (None, fs2)"
          "getFilePathsByExt w fs2 ''.'' ''.md'' = Inr found"
          "getFilePathsByExt w fs2 (Layouts (config b)) ''.html'' = Inr templateFiles"
          "initTemplateMap w b fs2 templateFiles = Inr b'"
      and t: "tasks s = map (\<lambda>p. Finished p None) (purgeIgnoreFiles w b found)"
      by blast
    let ?b1 = "b'\<lparr>gm := Some (initGoldmark b'), baseRenderContext := Config_AsMap w (config b')\<rparr>"
    from ph have "Run_discover w b fs2 = Inr (?b1, purgeIgnoreFiles w b found)"
      unfolding Run_discover_Inr by blast
    with ph have ok: "Run_setup n w b fs = Some (Inr (?b1, purgeIgnoreFiles w b found), fs2)"
      unfolding Run_setup_Inr by blast
    from Run_inv [OF assms ok] have inv: "pool_inv s" by simp
    show "r = None"
    proof (cases r)
      case None
      then show ?thesis .
    next
      case (Some e)
      with inv ret obtain i where "i < length (tasks s)" "failure (tasks s ! i) = Some e"
        by (auto simp: pool_inv_def)
      with t show ?thesis by simp
    qed
  qed
next
  assume ret: "main s = Returned (Some e)"
  from Run_cases [OF assms]
  show "Run_setup n w b fs = Some (Inl e, pfs s) \<or>
      (\<exists>i < length (tasks s). failure (tasks s ! i) = Some e)"
  proof (elim disjE exE conjE)
    fix e' fs1 assume "Run_setup n w b fs = Some (Inl e', fs1)" "s = Run_failed fs1 e'"
    with ret show ?thesis by (simp add: Run_failed_def split: if_splits)
  next
    fix b1 files fs2 assume ok: "Run_setup n w b fs = Some (Inr (b1, files), fs2)"
    from Run_inv [OF assms ok] ret show ?thesis by (simp add: pool_inv_def)
  qed
next
  assume a: "(createDistDir w fs (Dist (config b)) True = (Some e, fs') \<or>
     (\<exists>fs1. createDistDir w fs (Dist (config b)) True = (None, fs1) \<and>
        (copyStatic n w fs1 (Static (config b)) (Dist (config b)) = Some (Some e, fs') \<or>
         copyStatic n w fs1 (Static (config b)) (Dist (config b)) = Some (None, fs') \<and>
         (getFilePathsByExt w fs' ''.'' ''.md'' = Inl e \<or>
          (\<exists>found. getFilePathsByExt w fs' ''.'' ''.md'' = Inr found \<and>
             (getFilePathsByExt w fs' (Layouts (config b)) ''.html'' = Inl e \<or>
              (\<exists>templateFiles.
                 getFilePathsByExt w fs' (Layouts (config b)) ''.html'' = Inr templateFiles \<and>
                 initTemplateMap w b fs' templateFiles = Inl e)))))))
    \<and> e \<noteq> NilPanic"
  then have "Run_setup n w b fs = Some (Inl e, fs')"
    unfolding Run_setup_Inl Run_discover_Inl by blast
  with a Run_early_state [OF assms, of e fs'] show "main s = Returned (Some e)"
    by (simp add: Run_failed_def)
next
  assume a: "i < length (tasks s) \<and> (tasks s ! i = Sending p e \<or> failure (tasks s ! i) = Some e)"
  show "main s \<noteq> Returned None"
  proof
    assume nil: "main s = Returned None"
    from Run_cases [OF assms] show False
    proof (elim disjE exE conjE)
      fix e' fs1 assume "Run_setup n w b fs = Some (Inl e', fs1)" "s = Run_failed fs1 e'"
      with a show False by (simp add: Run_failed_def)
    next
      fix b1 files fs2 assume ok: "Run_setup n w b fs = Some (Inr (b1, files), fs2)"
      from Run_finished_nil [OF assms ok nil] a show False by auto
    qed
  qed
next
  assume live: "main s = Ranging \<and> \<not> crashed s"
  from Run_cases [OF assms]
  show "\<exists>s'. Run n w b fs s' \<and> run_measure s' < run_measure s"
  proof (elim disjE exE conjE)
    fix e' fs1 assume "Run_setup n w b fs = Some (Inl e', fs1)" "s = Run_failed fs1 e'"
    with live show ?thesis by (simp add: Run_failed_def split: if_splits)
  next
    fix b1 files fs2 assume ok: "Run_setup n w b fs = Some (Inr (b1, files), fs2)"
    from live obtain s' where st: "step w b1 s s'" using step_progress by blast
    from Run_step [OF ok assms st] step_measure [OF st] show ?thesis by blast
  qed
next
  assume "Run_setup n w b fs = Some (Inr (b1, files), fs1) \<and> t \<in> set (tasks s)"
  with Run_rendered [OF assms, of b1 files fs1] show "rendered w b1 t" by blast
qed

lemma Run_returns_examples:
  "Run 1 mem_world (NewBuilder site_config) no_static_site built_pool \<and>
   main built_pool = Returned None \<and>
   (\<exists>fs1 fs2 found templateFiles b'.
      createDistDir mem_world no_static_site ''dist'' True = (None, fs1) \<and>
      copyStatic 1 mem_world fs1 ''static'' ''dist'' = Some (None, fs2) \<and>
      getFilePathsByExt mem_world fs2 ''.'' ''.md'' = Inr found \<and>
      getFilePathsByExt mem_world fs2 ''layouts'' ''.html'' = Inr templateFiles \<and>
      initTemplateMap mem_world (NewBuilder site_config) fs2 templateFiles = Inr b' \<and>
      tasks built_pool
        = map (\<lambda>p. Finished p None) (purgeIgnoreFiles mem_world (NewBuilder site_config) found)) \<and>
   Run 1 mem_world (NewBuilder site_config) two_site returned_pool \<and>
   main returned_pool = Returned (Some TemplateNotFound) \<and>
   failure (tasks returned_pool ! 0) = Some TemplateNotFound \<and>
   tasks returned_pool
     \<noteq> map (\<lambda>p. Finished p None) [''a.md'', ''b.md''] \<and>
   Run 1 mem_world (NewBuilder site_config) unlaid_site
     (Run_failed (unlaid_site @ [(''dist'', Directory)]) (OSError ''no such file or directory'')) \<and>
   getFilePathsByExt mem_world (unlaid_site @ [(''dist'', Directory)]) ''layouts'' ''.html''
     = Inl (OSError ''no such file or directory'') \<and>
   main (Run_failed (unlaid_site @ [(''dist'', Directory)]) (OSError ''no such file or directory''))
     = Returned (Some (OSError ''no such file or directory''))"
proof -
  let ?b0 = "NewBuilder site_config :: string Builder"
  let ?fs1 = "unlaid_site @ [(''dist'', Directory)]"
  let ?e = "OSError ''no such file or directory''"
  have c: "Dist (config ?b0) = ''dist''" "Static (config ?b0) = ''static''"
    "Layouts (config ?b0) = ''layouts''"
    by (simp_all add: NewBuilder_def site_config_def)
  have run3: "Run 1 mem_world ?b0 unlaid_site (Run_failed ?fs1 ?e)"
    by (rule Run_early [OF unlaid_setup])
  have d1: "createDistDir mem_world unlaid_site ''dist'' True = (None, ?fs1)" by code_simp
  have d2: "copyStatic 1 mem_world ?fs1 ''static'' ''dist'' = Some (None, ?fs1)" by code_simp
  have d3: "getFilePathsByExt mem_world ?fs1 ''.'' ''.md'' = Inr [''index.md'']" by code_simp
  have d4: "getFilePathsByExt mem_world ?fs1 ''layouts'' ''.html'' = Inl ?e" by code_simp
  have h: "(createDistDir mem_world unlaid_site ''dist'' True = (Some ?e, ?fs1) \<or>
     (\<exists>fs1. createDistDir mem_world unlaid_site ''dist'' True = (None, fs1) \<and>
        (copyStatic 1 mem_world fs1 ''static'' ''dist'' = Some (Some ?e, ?fs1) \<or>
         copyStatic 1 mem_world fs1 ''static'' ''dist'' = Some (None, ?fs1) \<and>
         (getFilePathsByExt mem_world ?fs1 ''.'' ''.md'' = Inl ?e \<or>
          (\<exists>found. getFilePathsByExt mem_world ?fs1 ''.'' ''.md'' = Inr found \<and>
             (getFilePathsByExt mem_world ?fs1 ''layouts'' ''.html'' = Inl ?e \<or>
              (\<exists>templateFiles.
                 getFilePathsByExt mem_world ?fs1 ''layouts'' ''.html'' = Inr templateFiles \<and>
                 initTemplateMap mem_world ?b0 ?fs1 templateFiles = Inl ?e)))))))
    \<and> ?e \<noteq> NilPanic"
    using d1 d2 d3 d4 by simp
  note t3 = Run_returns [OF run3, THEN conjunct2, THEN conjunct2,
    THEN conjunct1, unfolded c, rule_format, OF h]
  have m: "main built_pool = Returned None" by (simp add: built_pool_def)
  note t1 = Run_returns [OF no_static_run, THEN conjunct1, rule_format, OF m,
    unfolded c]
  have "step mem_world (setup_builder 1 mem_world ?b0 two_site) sending_pool returned_pool"
    unfolding returned_pool_eq
    by (rule step.receive) (simp_all add: sending_pool_def)
  from Run_step [OF two_site_setup two_site_sending this]
  have run2: "Run 1 mem_world ?b0 two_site returned_pool" .
  have m2: "main returned_pool = Returned (Some TemplateNotFound)"
    by (simp add: returned_pool_def)
  have f2: "0 < length (tasks returned_pool) \<and>
            (tasks returned_pool ! 0 = Sending ''a.md'' TemplateNotFound \<or>
             failure (tasks returned_pool ! 0) = Some TemplateNotFound)"
    by (simp add: returned_pool_def)
  note t2 = Run_returns [OF run2, THEN conjunct2, THEN conjunct2, THEN conjunct2,
    THEN conjunct1, rule_format, OF f2]
  have "Run 1 mem_world ?b0 no_static_site built_pool \<and>
   main built_pool = Returned None \<and>
   (\<exists>fs1 fs2 found templateFiles b'.
      createDistDir mem_world no_static_site ''dist'' True = (None, fs1) \<and>
      copyStatic 1 mem_world fs1 ''static'' ''dist'' = Some (None, fs2) \<and>
      getFilePathsByExt mem_world fs2 ''.'' ''.md'' = Inr found \<and>
      getFilePathsByExt mem_world fs2 ''layouts'' ''.html'' = Inr templateFiles \<and>
      initTemplateMap mem_world ?b0 fs2 templateFiles = Inr b' \<and>
      tasks built_pool = map (\<lambda>p. Finished p None) (purgeIgnoreFiles mem_world ?b0 found)) \<and>
   Run 1 mem_world ?b0 two_site returned_pool \<and>
   main returned_pool = Returned (Some TemplateNotFound) \<and>
   failure (tasks returned_pool ! 0) = Some TemplateNotFound \<and>
   tasks returned_pool \<noteq> map (\<lambda>p. Finished p None) [''a.md'', ''b.md'']"
    using t1 t2 run2 m m2 no_static_run by (simp add: returned_pool_def)
  with run3 d4 t3 show ?thesis by simp
qed

text \<open>
  Claim C3 does not hold of the code: \<^verbatim>\<open>Run\<close> does not return an error whenever a phase
  fails. When \<^verbatim>\<open>os.Stat\<close> on the destination directory fails with an error other than
  "does not exist" (the directory lies under a regular file, or a directory above it
  cannot be searched), the preparation of the destination directory fails in
  \<^verbatim>\<open>existDir\<close>, which calls \<^verbatim>\<open>IsDir\<close> on the nil \<^verbatim>\<open>FileInfo\<close>: the process panics. The only
  state of such a run is the panic, before any goroutine has started and with the file
  system untouched; \<^verbatim>\<open>Run\<close> returns neither an error nor nil.
\<close>

theorem Run_panics_when_Stat_fails:
  assumes "os_Stat w fs (Dist (config b)) = StatFailed e"
  shows
  "createDistDir w fs (Dist (config b)) True = (Some NilPanic, fs) \<and>
   Run_setup n w b fs = Some (Inl NilPanic, fs) \<and>
   (Run n w b fs s \<longleftrightarrow> s = Run_failed fs NilPanic) \<and>
   (Run n w b fs s \<longrightarrow> crashed s \<and> (\<forall>r. main s \<noteq> Returned r))"
proof -
  from assms have d: "createDistDir w fs (Dist (config b)) True = (Some NilPanic, fs)"
    by (simp add: createDistDir_def existDir_def)
  then have r: "Run_setup n w b fs = Some (Inl NilPanic, fs)"
    by (simp add: Run_setup_def)
  have only: "Run n w b fs s \<longleftrightarrow> s = Run_failed fs NilPanic"
    using Run_early [OF r] Run_early_state [OF _ r, of s] by blast
  have "crashed (Run_failed fs NilPanic) \<and> (\<forall>r. main (Run_failed fs NilPanic) \<noteq> Returned r)"
    by (simp add: Run_failed_def)
  with d r only show ?thesis by simp
qed

theorem Run_panics_when_Stat_fails_witness:
  "os_Stat mem_world unlaid_site (Dist (config (NewBuilder nested_config :: string Builder)))
     = StatFailed (OSError ''not a directory'') \<and>
   createDistDir mem_world unlaid_site ''index.md/dist'' True = (Some NilPanic, unlaid_site) \<and>
   Run 0 mem_world (NewBuilder nested_config :: string Builder) unlaid_site
     (Run_failed unlaid_site NilPanic) \<and>
   crashed (Run_failed unlaid_site NilPanic) \<and>
   main (Run_failed unlaid_site NilPanic) = Ranging \<and>
   (\<forall>r. main (Run_failed unlaid_site NilPanic) \<noteq> Returned r)"
proof -
  let ?b = "NewBuilder nested_config :: string Builder"
  have c: "Dist (config ?b) = ''index.md/dist''"
    by (simp add: NewBuilder_def nested_config_def site_config_def)
  have stat: "os_Stat mem_world unlaid_site (Dist (config ?b)) = StatFailed (OSError ''not a directory'')"
    unfolding c by code_simp
  note t = Run_panics_when_Stat_fails [OF stat, of 0 "Run_failed unlaid_site NilPanic"]
  from t have run: "Run 0 mem_world ?b unlaid_site (Run_failed unlaid_site NilPanic)" by simp
  from t run have "crashed (Run_failed unlaid_site NilPanic) \<and>
    (\<forall>r. main (Run_failed unlaid_site NilPanic) \<noteq> Returned r)" by blast
  moreover from t have "createDistDir mem_world unlaid_site ''index.md/dist'' True
      = (Some NilPanic, unlaid_site)" unfolding c by simp
  moreover have "main (Run_failed unlaid_site NilPanic) = Ranging" by (simp add: Run_failed_def)
  ultimately show ?thesis using stat run by simp
qed

text \<open>
  Claim C7, amended. \<^verbatim>\<open>Run\<close> returns nil only after the channel has been closed, and so
  after every goroutine has finished, each without an error. While \<^verbatim>\<open>Run\<close> is in its
  loop no error has been received. An error is returned as soon as it is received: from
  any state in which a goroutine is sending, the receive leads straight to the state in
  which \<^verbatim>\<open>Run\<close> has returned that error, whatever the other goroutines are doing.
\<close>

theorem Run_waits_only_for_success:
  assumes "Run n w b fs s"
  shows
  "(main s = Returned None \<longrightarrow>
      closed s \<and> (\<forall>i < length (tasks s). \<exists>p. tasks s ! i = Finished p None)) \<and>
   (main s = Ranging \<longrightarrow> (\<forall>i < length (tasks s). failure (tasks s ! i) = None)) \<and>
   (main s = Returned (Some e) \<longrightarrow>
      tasks s = [] \<or> (\<exists>i < length (tasks s). failure (tasks s ! i) = Some e)) \<and>
   (main s = Ranging \<and> \<not> crashed s \<and> i < length (tasks s) \<and> tasks s ! i = Sending p e \<longrightarrow>
      Run n w b fs (s\<lparr>tasks := (tasks s)[i := Sent p e], main := Returned (Some e)\<rparr>))"
proof -
  from Run_cases [OF assms] show ?thesis
  proof (elim disjE exE conjE)
    fix e' fs1' assume "Run_setup n w b fs = Some (Inl e', fs1')" "s = Run_failed fs1' e'"
    then show ?thesis by (simp add: Run_failed_def)
  next
    fix b1' files' fs1' assume ok: "Run_setup n w b fs = Some (Inr (b1', files'), fs1')"
    from Run_inv [OF assms ok] have inv: "pool_inv s" by simp
    have recv: "Run n w b fs (s\<lparr>tasks := (tasks s)[i := Sent p e], main := Returned (Some e)\<rparr>)"
      if "main s = Ranging \<and> \<not> crashed s \<and> i < length (tasks s) \<and> tasks s ! i = Sending p e"
    proof -
      from that have "step w b1' s (s\<lparr>tasks := (tasks s)[i := Sent p e], main := Returned (Some e)\<rparr>)"
        by (intro step.receive) simp_all
      from Run_step [OF ok assms this] show ?thesis .
    qed
    from inv recv show ?thesis
      unfolding pool_inv_def by blast
  qed
qed

text \<open>
  The claim as it was stated fails: with two files of which the first has no template,
  \<^verbatim>\<open>Run\<close> has returned the error of the first file while the second has not yet been
  rendered, the first goroutine has not yet called \<^verbatim>\<open>wg.Done\<close>, and the channel is open.
\<close>

theorem Run_waits_only_for_success_counterexample:
  "Run 1 mem_world (NewBuilder site_config) two_site returned_pool \<and>
   main returned_pool = Returned (Some TemplateNotFound) \<and>
   tasks returned_pool ! 1 = Todo ''b.md'' \<and>
   \<not> closed returned_pool"
proof -
  have "step mem_world (setup_builder 1 mem_world (NewBuilder site_config) two_site)
          sending_pool returned_pool"
    unfolding returned_pool_eq
    by (rule step.receive) (simp_all add: sending_pool_def)
  from Run_step [OF two_site_setup two_site_sending this]
  show ?thesis by (simp add: returned_pool_def)
qed

theorem Run_waits_only_for_success_witness:
  "Run 1 mem_world (NewBuilder site_config) no_static_site built_pool \<and>
   main built_pool = Returned None \<and>
   closed built_pool \<and>
   tasks built_pool = [Finished ''index.md'' None] \<and>
   Run 1 mem_world (NewBuilder site_config) two_site sending_pool \<and>
   main sending_pool = Ranging \<and>
   tasks sending_pool ! 0 = Sending ''a.md'' TemplateNotFound \<and>
   Run 1 mem_world (NewBuilder site_config) two_site returned_pool"
proof -
  have m: "main built_pool = Returned None" by (simp add: built_pool_def)
  note t1 = Run_waits_only_for_success [OF no_static_run, THEN conjunct1, rule_format, OF m]
  have h: "main sending_pool = Ranging \<and> \<not> crashed sending_pool \<and>
           0 < length (tasks sending_pool) \<and>
           tasks sending_pool ! 0 = Sending ''a.md'' TemplateNotFound"
    by (simp add: sending_pool_def)
  note t2 = Run_waits_only_for_success [OF two_site_sending, THEN conjunct2, THEN conjunct2,
    THEN conjunct2, rule_format, OF h]
  from t1 have "closed built_pool" by simp
  moreover have "tasks built_pool = [Finished ''index.md'' None]" by (simp add: built_pool_def)
  moreover from t2 have "Run 1 mem_world (NewBuilder site_config) two_site returned_pool"
    by (simp add: returned_pool_eq)
  ultimately show ?thesis using no_static_run two_site_sending m h by simp
qed

end
